theory Spec2Isabelle
  imports Main
begin

section \<open>Objects and references\<close>

text \<open>
  Python objects are shared and mutated in place. An object of a class that is not part of
  the two modules treated here (a locker, a pool, a configuration, a package, an environment,
  an installer) is represented by its identity only, a reference.
\<close>

type_synonym ref = nat

section \<open>\<^verbatim>\<open>poetry/poetry.py\<close>: the Poetry object\<close>

text \<open>
  The attributes of a \<^verbatim>\<open>Poetry\<close> instance. \<^verbatim>\<open>base_file\<close>, \<^verbatim>\<open>base_local_config\<close> and
  \<^verbatim>\<open>base_package\<close> are the constructor arguments handed on to the base class; \<^verbatim>\<open>_locker\<close>,
  \<^verbatim>\<open>_config\<close>, \<^verbatim>\<open>_pool\<close> and \<^verbatim>\<open>_plugin_manager\<close> are set by \<^verbatim>\<open>__init__\<close> of this class
  (the plugin manager is \<^verbatim>\<open>Optional\<close> and starts as \<^verbatim>\<open>None\<close>).
\<close>

record Poetry =
  base_file :: ref
  base_local_config :: ref
  base_package :: ref
  locker :: ref
  config :: ref
  pool :: ref
  plugin_manager :: "ref option"

text \<open>The store of Poetry instances: what each reference to a Poetry object points to.\<close>

type_synonym poetry_store = "ref \<Rightarrow> Poetry"

text \<open>
  Each setter assigns one attribute of \<^verbatim>\<open>self\<close> and returns \<^verbatim>\<open>self\<close>. The model takes the
  store and the reference \<^verbatim>\<open>self\<close>, and returns the updated store with the returned reference.
\<close>

definition set_locker :: "poetry_store \<Rightarrow> ref \<Rightarrow> ref \<Rightarrow> poetry_store \<times> ref" where
  "set_locker h self l = (h(self := (h self)\<lparr>locker := l\<rparr>), self)"

definition set_pool :: "poetry_store \<Rightarrow> ref \<Rightarrow> ref \<Rightarrow> poetry_store \<times> ref" where
  "set_pool h self p = (h(self := (h self)\<lparr>pool := p\<rparr>), self)"

definition set_config :: "poetry_store \<Rightarrow> ref \<Rightarrow> ref \<Rightarrow> poetry_store \<times> ref" where
  "set_config h self c = (h(self := (h self)\<lparr>config := c\<rparr>), self)"

definition set_plugin_manager :: "poetry_store \<Rightarrow> ref \<Rightarrow> ref \<Rightarrow> poetry_store \<times> ref" where
  "set_plugin_manager h self m = (h(self := (h self)\<lparr>plugin_manager := Some m\<rparr>), self)"

text \<open>The seven attributes of an instance, as one tuple, for comparing two states of it.\<close>

definition attrs :: "Poetry \<Rightarrow> ref \<times> ref \<times> ref \<times> ref \<times> ref \<times> ref \<times> ref option" where
  "attrs p = (base_file p, base_local_config p, base_package p, locker p, config p, pool p, plugin_manager p)"

section \<open>Python values and exceptions\<close>

text \<open>
  The values an option of the command line can be bound to: \<^verbatim>\<open>None\<close>, a flag, a number, a
  string, or a list of strings (an option that may be repeated). \<^verbatim>\<open>truthy\<close> is Python's
  truth test \<^verbatim>\<open>if value:\<close>.
\<close>

datatype pyval = PNone | PBool bool | PInt int | PStr string | PList "string list"

fun truthy :: "pyval \<Rightarrow> bool" where
  "truthy PNone = False"
| "truthy (PBool b) = b"
| "truthy (PInt i) = (i \<noteq> 0)"
| "truthy (PStr s) = (s \<noteq> [])"
| "truthy (PList xs) = (xs \<noteq> [])"

text \<open>
  An exception is either a \<^verbatim>\<open>CleoException\<close> (or an instance of a subclass of it), which is
  what \<^verbatim>\<open>suppress(CleoException)\<close> catches, or any other exception. Both carry a message.
\<close>

datatype exn = CleoException string | OtherException string

fun is_CleoException :: "exn \<Rightarrow> bool" where
  "is_CleoException (CleoException m) = True"
| "is_CleoException (OtherException m) = False"

text \<open>
  \<^verbatim>\<open>with suppress(CleoException): body\<close>, for a body that leaves a state and may have raised:
  a \<^verbatim>\<open>CleoException\<close> is dropped, any other exception is still raised.
\<close>

fun suppress_CleoException :: "exn option \<Rightarrow> exn option" where
  "suppress_CleoException None = None"
| "suppress_CleoException (Some e) = (if is_CleoException e then None else Some e)"

section \<open>Inputs, options and the global definition\<close>

text \<open>
  An option of the global definition: the two attributes that \<^verbatim>\<open>_configure_io\<close> reads,
  \<^verbatim>\<open>option.name\<close> (the long name, without dashes) and \<^verbatim>\<open>option.shortcut\<close>.
\<close>

record option_decl =
  opt_name :: string
  opt_shortcut :: "string option"

type_synonym input_definition = "option_decl list"

text \<open>A Python \<^verbatim>\<open>dict\<close> with string keys, in insertion order.\<close>

type_synonym 'v dict = "(string \<times> 'v) list"

fun dict_set :: "'v dict \<Rightarrow> string \<Rightarrow> 'v \<Rightarrow> 'v dict" where
  "dict_set [] k v = [(k, v)]"
| "dict_set ((k', v') # kvs) k v = (if k' = k then (k, v) # kvs else (k', v') # dict_set kvs k v)"

text \<open>
  An input object. \<^verbatim>\<open>tokens\<close> is \<^verbatim>\<open>_tokens\<close>, the argument vector without the program name;
  \<^verbatim>\<open>parameter_options\<close> is the list that \<^verbatim>\<open>add_parameter_option\<close> appends to (only a
  \<^verbatim>\<open>RunArgvInput\<close> has it); \<^verbatim>\<open>bound_definition\<close>, \<^verbatim>\<open>arguments\<close> and \<^verbatim>\<open>options\<close> are what
  \<^verbatim>\<open>bind\<close> fills: \<^verbatim>\<open>options\<close> is the dictionary that the \<^verbatim>\<open>options\<close> property returns and
  that \<^verbatim>\<open>set_option\<close> writes.
\<close>

datatype input_class = ArgvInput | RunArgvInput

record argv_input =
  input_class :: input_class
  tokens :: "string list"
  parameter_options :: "string list"
  bound_definition :: "input_definition option"
  arguments :: "pyval dict"
  options :: "pyval dict"

text \<open>
  Modelled from the spec: the class \<^verbatim>\<open>RunArgvInput\<close> of
  \<^verbatim>\<open>poetry/console/io/inputs/run_argv_input.py\<close> is not among the sources. Its constructor takes
  the argument vector, program name first, and keeps the rest as the tokens (a new input "seeded
  with \<^verbatim>\<open>[programName] + originalTrailingTokens\<close>"); no option is declared or bound yet.
  \<^verbatim>\<open>add_parameter_option\<close> declares one more recognised option.
\<close>

definition new_RunArgvInput :: "string list \<Rightarrow> argv_input" where
  "new_RunArgvInput argv =
     \<lparr>input_class = RunArgvInput, tokens = (case argv of [] \<Rightarrow> [] | prog # ts \<Rightarrow> ts),
      parameter_options = [], bound_definition = None, arguments = [], options = []\<rparr>"

definition add_parameter_option :: "argv_input \<Rightarrow> string \<Rightarrow> argv_input" where
  "add_parameter_option i opt = i\<lparr>parameter_options := parameter_options i @ [opt]\<rparr>"

text \<open>\<^verbatim>\<open>run_input.set_option(option_name, value)\<close>: an assignment in the dictionary of options.\<close>

definition set_option :: "argv_input \<Rightarrow> string \<Rightarrow> pyval \<Rightarrow> argv_input" where
  "set_option i k v = i\<lparr>options := dict_set (options i) k v\<rparr>"

section \<open>The input/output object\<close>

text \<open>
  The \<^verbatim>\<open>IO\<close> object: its identity; its input; the answers of \<^verbatim>\<open>is_debug()\<close>, \<^verbatim>\<open>is_very_verbose()\<close> and
  \<^verbatim>\<open>is_verbose()\<close>; and the lines written with \<^verbatim>\<open>write_line\<close>.
\<close>

record io =
  io_ref :: ref
  io_input :: argv_input
  is_debug :: bool
  is_very_verbose :: bool
  is_verbose :: bool
  written :: "string list"

definition set_input :: "io \<Rightarrow> argv_input \<Rightarrow> io" where
  "set_input i inp = i\<lparr>io_input := inp\<rparr>"

definition write_line :: "io \<Rightarrow> string \<Rightarrow> io" where
  "write_line i l = i\<lparr>written := written i @ [l]\<rparr>"

section \<open>The library below the application\<close>

text \<open>
  The application class extends the \<^verbatim>\<open>Application\<close> class of the cleo library, and its inputs
  are cleo's. What the library computes is a parameter of the model:
  \<^item> \<^verbatim>\<open>parse\<close>: the parsing that \<^verbatim>\<open>bind\<close> runs, for an input and a definition. It yields the
    bound arguments and options, as far as it got, and the exception it raised, if any. (For a
    \<^verbatim>\<open>RunArgvInput\<close> the parser is the one of that class.)
  \<^item> \<^verbatim>\<open>first_argument\<close>: the property of that name of an input.
  \<^item> \<^verbatim>\<open>unknown_option\<close>: the exception that \<^verbatim>\<open>definition.option(name)\<close> raises for a name
    the definition does not have.
  \<^item> \<^verbatim>\<open>base_configure_io\<close>: \<^verbatim>\<open>_configure_io\<close> of the base class.
  \<^item> \<^verbatim>\<open>has_parameter_option\<close> and \<^verbatim>\<open>parameter_option\<close>: the methods of these names of an
    input, which look at the raw tokens.
\<close>

record cleo =
  parse :: "input_definition \<Rightarrow> argv_input \<Rightarrow> (pyval dict \<times> pyval dict) \<times> exn option"
  first_argument :: "argv_input \<Rightarrow> string option"
  unknown_option :: "string \<Rightarrow> exn"
  base_configure_io :: "io \<Rightarrow> exn + io"
  has_parameter_option :: "argv_input \<Rightarrow> string \<Rightarrow> bool"
  parameter_option :: "argv_input \<Rightarrow> string \<Rightarrow> pyval"

text \<open>
  \<^verbatim>\<open>input.bind(definition)\<close> mutates the input: it records the definition and stores what the
  parser bound. The result is the input afterwards and the exception raised, if any.
\<close>

definition bind :: "cleo \<Rightarrow> argv_input \<Rightarrow> input_definition \<Rightarrow> argv_input \<times> exn option" where
  "bind lib i d =
     (case parse lib d i of
        ((args, opts), e) \<Rightarrow> (i\<lparr>bound_definition := Some d, arguments := args, options := opts\<rparr>, e))"

text \<open>\<^verbatim>\<open>definition.option(name)\<close>: the option of that name, or an exception.\<close>

definition definition_option :: "cleo \<Rightarrow> input_definition \<Rightarrow> string \<Rightarrow> exn + option_decl" where
  "definition_option lib d n =
     (case find (\<lambda>opt. opt_name opt = n) d of
        None \<Rightarrow> Inl (unknown_option lib n)
      | Some opt \<Rightarrow> Inr opt)"

section \<open>\<^verbatim>\<open>poetry/console/application.py\<close>: the application\<close>

subsection \<open>Splitting a shortcut\<close>

text \<open>\<^verbatim>\<open>s.lstrip("-")\<close>.\<close>

definition lstrip_dash :: "string \<Rightarrow> string" where
  "lstrip_dash s = dropWhile (\<lambda>c. c = CHR ''-'') s"

text \<open>
  \<^verbatim>\<open>re.split(r"\|-?", s)\<close>: the string is cut at every bar; a dash that follows the bar
  belongs to the delimiter (the optional dash is matched greedily).
\<close>

fun re_split_bar :: "string \<Rightarrow> string list" where
  "re_split_bar [] = [[]]"
| "re_split_bar [c] = (if c = CHR ''|'' then [[], []] else [[c]])"
| "re_split_bar (c # d # cs) =
     (if c = CHR ''|'' then
        (if d = CHR ''-'' then [] # re_split_bar cs else [] # re_split_bar (d # cs))
      else
        (case re_split_bar (d # cs) of
           [] \<Rightarrow> [[c]]
         | w # ws \<Rightarrow> (c # w) # ws))"

text \<open>
  Lines 211 to 214 for one shortcut string: the fragments that are not empty, each one stripped
  of leading dashes again and prefixed with one dash.
\<close>

definition shortcut_options :: "string \<Rightarrow> string list" where
  "shortcut_options sc =
     map (\<lambda>s. CHR ''-'' # lstrip_dash s) (filter (\<lambda>s. s \<noteq> []) (re_split_bar (lstrip_dash sc)))"

subsection \<open>The application object\<close>

text \<open>
  The attributes of the application: \<^verbatim>\<open>_name\<close> and the global definition, both kept by the base
  class, and the four attributes that \<^verbatim>\<open>__init__\<close> of this class sets: \<^verbatim>\<open>_poetry\<close>, \<^verbatim>\<open>_io\<close>,
  \<^verbatim>\<open>_disable_plugins\<close> and \<^verbatim>\<open>_plugins_loaded\<close>.
\<close>

record application =
  app_name :: "string option"
  app_definition :: input_definition
  poetry_cache :: "ref option"
  app_io :: "ref option"
  disable_plugins :: pyval
  plugins_loaded :: bool

text \<open>\<^verbatim>\<open>Application.__init__\<close>, given the definition that the base class builds.\<close>

definition new_application :: "input_definition \<Rightarrow> application" where
  "new_application d =
     \<lparr>app_name = Some ''poetry'', app_definition = d, poetry_cache = None, app_io = None,
      disable_plugins = PBool False, plugins_loaded = False\<rparr>"

text \<open>\<^verbatim>\<open>self._name or ""\<close>.\<close>

definition name_or_empty :: "application \<Rightarrow> string" where
  "name_or_empty app = (case app_name app of None \<Rightarrow> [] | Some n \<Rightarrow> n)"

subsection \<open>\<^verbatim>\<open>_configure_io\<close>\<close>

text \<open>
  Lines 208 to 214, for one option of the definition: the long form is declared on the run input,
  then one option for each alias of the shortcut, if the option has a shortcut that is not empty.
\<close>

definition declare_option :: "option_decl \<Rightarrow> argv_input \<Rightarrow> argv_input" where
  "declare_option opt ri =
     (let ri1 = add_parameter_option ri (''--'' @ opt_name opt) in
      case opt_shortcut opt of
        None \<Rightarrow> ri1
      | Some sc \<Rightarrow> if sc = [] then ri1 else foldl add_parameter_option ri1 (shortcut_options sc))"

text \<open>
  The first loop (lines 206 to 214) over the items of \<^verbatim>\<open>input.options\<close>: every option with a
  truthy value is looked up in the definition and declared. The lookup can raise.
\<close>

fun declare_supplied ::
  "cleo \<Rightarrow> input_definition \<Rightarrow> pyval dict \<Rightarrow> argv_input \<Rightarrow> exn + argv_input" where
  "declare_supplied lib d [] ri = Inr ri"
| "declare_supplied lib d ((n, v) # rest) ri =
     (if truthy v then
        (case definition_option lib d n of
           Inl e \<Rightarrow> Inl e
         | Inr opt \<Rightarrow> declare_supplied lib d rest (declare_option opt ri))
      else declare_supplied lib d rest ri)"

text \<open>The second loop (lines 219 to 221): every truthy value is set on the run input.\<close>

fun reapply_values :: "pyval dict \<Rightarrow> argv_input \<Rightarrow> argv_input" where
  "reapply_values [] ri = ri"
| "reapply_values ((n, v) # rest) ri =
     reapply_values rest (if truthy v then set_option ri n v else ri)"

text \<open>
  Lines 194 to 223, the body of \<^verbatim>\<open>_configure_io\<close> before it calls the method of the base class.
  The result is the \<^verbatim>\<open>IO\<close> object as that call receives it, or the exception that ended the
  body.
\<close>

definition rebind_input :: "cleo \<Rightarrow> application \<Rightarrow> io \<Rightarrow> exn + io" where
  "rebind_input lib app i =
     (let d = app_definition app in
      case bind lib (io_input i) d of
        (inp, e1) \<Rightarrow>
          (case suppress_CleoException e1 of
             Some e \<Rightarrow> Inl e
           | None \<Rightarrow>
               if first_argument lib inp = Some ''run'' then
                 (case declare_supplied lib d (options inp)
                         (new_RunArgvInput (name_or_empty app # tokens inp)) of
                    Inl e \<Rightarrow> Inl e
                  | Inr ri \<Rightarrow>
                      (case bind lib ri d of
                         (ri2, e2) \<Rightarrow>
                           (case suppress_CleoException e2 of
                              Some e \<Rightarrow> Inl e
                            | None \<Rightarrow>
                                Inr (set_input (i\<lparr>io_input := inp\<rparr>)
                                       (reapply_values (options inp) ri2)))))
               else Inr (i\<lparr>io_input := inp\<rparr>)))"


subsection \<open>Notions for stating what \<^verbatim>\<open>_configure_io\<close> does\<close>

text \<open>
  The snapshot of the global options: the items of \<^verbatim>\<open>input.options\<close> with a truthy value, which
  are the ones that pass the test \<^verbatim>\<open>if value:\<close> of both loops.
\<close>

definition snapshot :: "pyval dict \<Rightarrow> pyval dict" where
  "snapshot opts = filter (\<lambda>(n, v). truthy v) opts"

text \<open>The forms of an option on the command line: the long form, then the aliases of the shortcut.\<close>

definition option_forms :: "option_decl \<Rightarrow> string list" where
  "option_forms opt =
     (''--'' @ opt_name opt) #
     (case opt_shortcut opt of None \<Rightarrow> [] | Some sc \<Rightarrow> shortcut_options sc)"

text \<open>The forms of the option that the definition has under a name; none if it has no such option.\<close>

definition declared_forms :: "input_definition \<Rightarrow> string \<Rightarrow> string list" where
  "declared_forms d n =
     (case find (\<lambda>opt. opt_name opt = n) d of None \<Rightarrow> [] | Some opt \<Rightarrow> option_forms opt)"


subsection \<open>The state outside the application object\<close>

text \<open>
  A logger of the \<^verbatim>\<open>logging\<close> module has a list of handlers and a level. A handler is an
  \<^verbatim>\<open>IOHandler\<close>, which writes to the \<^verbatim>\<open>IO\<close> object it was built on and has the formatter it was
  given, or some other handler.
\<close>

datatype formatter = IOFormatter | OtherFormatter ref

datatype handler = IOHandler ref "formatter option" | OtherHandler ref

record logger =
  handlers :: "handler list"
  level :: nat

text \<open>The levels \<^verbatim>\<open>logging.WARNING\<close>, \<^verbatim>\<open>logging.INFO\<close> and \<^verbatim>\<open>logging.DEBUG\<close>.\<close>

definition WARNING :: nat where "WARNING = 30"

definition INFO :: nat where "INFO = 20"

definition DEBUG :: nat where "DEBUG = 10"

text \<open>
  \<^verbatim>\<open>logging.getLogger(name).name\<close>: a logger is known by its name, and the empty name stands for
  the root logger, whose name is \<^verbatim>\<open>root\<close>.
\<close>

definition getLogger :: "string \<Rightarrow> string" where
  "getLogger n = (if n = [] then ''root'' else n)"

text \<open>
  What the code changes outside the application, the command and the \<^verbatim>\<open>IO\<close> object: the
  loggers, by name; the Poetry objects, with the number of references handed out so far (the next
  object gets that number as its reference); and how often the collaborators were called:
  plugin discovery (\<^verbatim>\<open>load_plugins\<close>), plugin activation (\<^verbatim>\<open>activate\<close>), \<^verbatim>\<open>create_venv\<close> and the
  constructor of \<^verbatim>\<open>Installer\<close>.
\<close>

record world =
  loggers :: "string \<Rightarrow> logger"
  heap :: poetry_store
  allocated :: nat
  discoveries :: nat
  activations :: nat
  venvs_created :: nat
  installers_built :: nat

subsection \<open>Commands\<close>

text \<open>
  The installer that \<^verbatim>\<open>_configure_installer\<close> builds: the arguments of the constructor, and the
  flag given to \<^verbatim>\<open>use_executor\<close>.
\<close>

record installer =
  inst_io :: ref
  inst_env :: "ref option"
  inst_package :: ref
  inst_locker :: ref
  inst_pool :: ref
  inst_config :: ref
  inst_use_executor :: pyval

text \<open>
  Modelled from the spec: the classes \<^verbatim>\<open>Command\<close>, \<^verbatim>\<open>EnvCommand\<close> and \<^verbatim>\<open>InstallerCommand\<close> of
  \<^verbatim>\<open>poetry/console/commands\<close> are not among the sources. A command is known to the listeners by
  the three \<^verbatim>\<open>isinstance\<close> tests they make (the capabilities "Loggable", "EnvAware" and
  "InstallAware" of the spec) and by the attributes they read and set: \<^verbatim>\<open>loggers\<close>; \<^verbatim>\<open>env\<close>, set
  with \<^verbatim>\<open>set_env\<close>; \<^verbatim>\<open>installer\<close>, set with \<^verbatim>\<open>set_installer\<close>.
\<close>

record command =
  is_Command :: bool
  is_EnvCommand :: bool
  is_InstallerCommand :: bool
  cmd_loggers :: "string list"
  cmd_env :: "ref option"
  cmd_installer :: "installer option"

definition set_env :: "command \<Rightarrow> ref \<Rightarrow> command" where
  "set_env c e = c\<lparr>cmd_env := Some e\<rparr>"

definition set_installer :: "command \<Rightarrow> installer \<Rightarrow> command" where
  "set_installer c inst = c\<lparr>cmd_installer := Some inst\<rparr>"

subsection \<open>The collaborators\<close>

text \<open>
  The classes and functions that the application calls and that are not among the sources. Each
  is a parameter of the model; one that can raise yields an exception or a result.
  \<^item> \<^verbatim>\<open>command_poetry\<close>: the property \<^verbatim>\<open>command.poetry\<close>, a reference to a Poetry object.
  \<^item> \<^verbatim>\<open>create_venv\<close>: \<^verbatim>\<open>EnvManager(poetry).create_venv(io)\<close>, a reference to an environment;
    \<^verbatim>\<open>env_is_venv\<close> and \<^verbatim>\<open>env_path\<close> are \<^verbatim>\<open>env.is_venv()\<close> and \<^verbatim>\<open>env.path\<close>.
  \<^item> \<^verbatim>\<open>installer_error\<close>: the exception that the constructor of \<^verbatim>\<open>Installer\<close> raises, if any.
  \<^item> \<^verbatim>\<open>config_get\<close>: \<^verbatim>\<open>config.get(key, default)\<close>.
  \<^item> \<^verbatim>\<open>manager_load_plugins\<close> and \<^verbatim>\<open>manager_activate\<close>: the exception that
    \<^verbatim>\<open>manager.load_plugins()\<close> and \<^verbatim>\<open>manager.activate(self)\<close> raise, if any. Plugins are taken
    not to write the attributes of the application that are modelled here.
  \<^item> \<^verbatim>\<open>base_run\<close>: \<^verbatim>\<open>_run\<close> of the base class, which finds the command, dispatches the event to
    the listeners and runs the command: the exit code or an exception, and the state it leaves.
  \<^item> \<^verbatim>\<open>create_poetry\<close>: \<^verbatim>\<open>Factory().create_poetry(Path.cwd(), io, disable_plugins)\<close>, the
    new Poetry object.
  \<^item> \<^verbatim>\<open>import_module\<close>, \<^verbatim>\<open>getattr_class\<close> and \<^verbatim>\<open>instantiate\<close>: \<^verbatim>\<open>import_module(name)\<close>,
    \<^verbatim>\<open>getattr(module, name)\<close> and the call of the class.
\<close>

record services =
  command_poetry :: "command \<Rightarrow> world \<Rightarrow> exn + ref"
  create_venv :: "world \<Rightarrow> ref \<Rightarrow> io \<Rightarrow> exn + ref"
  env_is_venv :: "ref \<Rightarrow> bool"
  env_path :: "ref \<Rightarrow> string"
  installer_error :: "world \<Rightarrow> installer \<Rightarrow> exn option"
  config_get :: "ref \<Rightarrow> string \<Rightarrow> pyval \<Rightarrow> pyval"
  manager_load_plugins :: "world \<Rightarrow> exn option"
  manager_activate :: "world \<Rightarrow> application \<Rightarrow> exn option"
  base_run :: "application \<times> world \<Rightarrow> io \<Rightarrow> (application \<times> world) \<times> (exn + int)"
  create_poetry :: "world \<Rightarrow> ref option \<Rightarrow> pyval \<Rightarrow> exn + Poetry"
  import_module :: "string \<Rightarrow> exn + ref"
  getattr_class :: "ref \<Rightarrow> string \<Rightarrow> exn + ref"
  instantiate :: "ref \<Rightarrow> exn + command"

subsection \<open>\<^verbatim>\<open>load_command\<close>\<close>









text \<open>The names of the commands (lines 50 to 90).\<close>

definition COMMANDS :: "string list" where
  "COMMANDS =
     [''about'', ''add'', ''build'', ''check'', ''config'', ''export'', ''init'', ''install'',
      ''lock'', ''new'', ''publish'', ''remove'', ''run'', ''search'', ''shell'', ''show'',
      ''update'', ''version'',
      ''cache clear'', ''cache list'',
      ''debug info'', ''debug resolve'',
      ''env info'', ''env list'', ''env remove'', ''env use'',
      ''plugin add'', ''plugin remove'', ''plugin show'',
      ''self update'',
      ''source add'', ''source remove'', ''source show'']"


subsection \<open>The property \<^verbatim>\<open>poetry\<close> and \<^verbatim>\<open>reset_poetry\<close>\<close>

text \<open>
  The property returns the cached instance if there is one. Otherwise the factory builds a
  Poetry object, which gets a reference that no earlier object has; the reference is cached and
  returned. If the factory raises, nothing is cached.
\<close>

definition poetry :: "services \<Rightarrow> application \<times> world \<Rightarrow> (application \<times> world) \<times> (exn + ref)" where
  "poetry sv s =
     (case s of (app, w) \<Rightarrow>
        (case poetry_cache app of
           Some p \<Rightarrow> ((app, w), Inr p)
         | None \<Rightarrow>
             (case create_poetry sv w (app_io app) (disable_plugins app) of
                Inl e \<Rightarrow> ((app, w), Inl e)
              | Inr obj \<Rightarrow>
                  ((app\<lparr>poetry_cache := Some (allocated w)\<rparr>,
                    w\<lparr>heap := (heap w)(allocated w := obj), allocated := allocated w + 1\<rparr>),
                   Inr (allocated w)))))"

definition reset_poetry :: "application \<Rightarrow> application" where
  "reset_poetry app = app\<lparr>poetry_cache := None\<rparr>"

subsection \<open>\<^verbatim>\<open>_load_plugins\<close> and \<^verbatim>\<open>_run\<close>\<close>

text \<open>
  \<^verbatim>\<open>_load_plugins\<close>. The result is the state it leaves and the exception it raised, if any. An
  exception of the plugin manager leaves the method before line 337, so \<^verbatim>\<open>_plugins_loaded\<close>
  is not set then.
\<close>

definition load_plugins ::
  "cleo \<Rightarrow> services \<Rightarrow> application \<times> world \<Rightarrow> io \<Rightarrow> (application \<times> world) \<times> exn option" where
  "load_plugins lib sv s i =
     (case s of (app, w) \<Rightarrow>
        if plugins_loaded app then ((app, w), None)
        else
          (let app1 = app\<lparr>disable_plugins :=
                           PBool (has_parameter_option lib (io_input i) ''--no-plugins'')\<rparr> in
           if \<not> truthy (disable_plugins app1) then
             (let w1 = w\<lparr>discoveries := discoveries w + 1\<rparr> in
              case manager_load_plugins sv w of
                Some e \<Rightarrow> ((app1, w1), Some e)
              | None \<Rightarrow>
                  (let w2 = w1\<lparr>activations := activations w1 + 1\<rparr> in
                   case manager_activate sv w1 app1 of
                     Some e \<Rightarrow> ((app1, w2), Some e)
                   | None \<Rightarrow> ((app1\<lparr>plugins_loaded := True\<rparr>, w2), None)))
           else ((app1\<lparr>plugins_loaded := True\<rparr>, w), None)))"

text \<open>
  \<^verbatim>\<open>_run\<close>: \<^verbatim>\<open>_disable_plugins\<close> is set from the raw input, the plugins are loaded, and the base
  class runs. The result is the state left and the exit code or the exception raised.
\<close>

definition run ::
  "cleo \<Rightarrow> services \<Rightarrow> application \<times> world \<Rightarrow> io \<Rightarrow> (application \<times> world) \<times> (exn + int)" where
  "run lib sv s i =
     (case s of (app, w) \<Rightarrow>
        (case load_plugins lib sv
                (app\<lparr>disable_plugins := parameter_option lib (io_input i) ''--no-plugins''\<rparr>, w) i of
           (s1, Some e) \<Rightarrow> (s1, Inl e)
         | (s1, None) \<Rightarrow> base_run sv s1 i))"

text \<open>Several calls of \<^verbatim>\<open>_run\<close> in one process, one after the other, whatever each one returns.\<close>

fun runs :: "cleo \<Rightarrow> services \<Rightarrow> application \<times> world \<Rightarrow> io list \<Rightarrow> application \<times> world" where
  "runs lib sv s [] = s"
| "runs lib sv s (i # is) = runs lib sv (fst (run lib sv s i)) is"

subsection \<open>The listeners\<close>

text \<open>The three channels that every command gets (lines 239 to 243).\<close>

definition base_loggers :: "string list" where
  "base_loggers =
     [''poetry.packages.locker'', ''poetry.packages.package'', ''poetry.utils.password_manager'']"

text \<open>\<^verbatim>\<open>s.startswith(p)\<close>.\<close>

definition startswith :: "string \<Rightarrow> string \<Rightarrow> bool" where
  "startswith s p = (take (length p) s = p)"

text \<open>Lines 255 to 264: the level for a logger of a given name.\<close>

definition logger_level :: "io \<Rightarrow> string \<Rightarrow> nat" where
  "logger_level i name =
     (let level = WARNING;
          level = (if startswith name ''poetry.core.masonry.builders'' then INFO else level);
          level = (if is_debug i then DEBUG
                   else if is_very_verbose i \<or> is_verbose i then INFO
                   else level)
      in level)"

text \<open>The body of the loop (lines 251 to 266) for one name.\<close>

definition configure_logger ::
  "handler \<Rightarrow> io \<Rightarrow> (string \<Rightarrow> logger) \<Rightarrow> string \<Rightarrow> (string \<Rightarrow> logger)" where
  "configure_logger h i reg n =
     reg(getLogger n := \<lparr>handlers = [h], level = logger_level i (getLogger n)\<rparr>)"

definition register_command_loggers :: "command \<Rightarrow> io \<Rightarrow> world \<Rightarrow> world" where
  "register_command_loggers c i w =
     (if \<not> is_Command c then w
      else
        (let names = base_loggers @ cmd_loggers c;
             h = IOHandler (io_ref i) (Some IOFormatter)
         in w\<lparr>loggers := foldl (configure_logger h i) (loggers w) names\<rparr>))"

definition configure_env ::
  "services \<Rightarrow> command \<times> io \<times> world \<Rightarrow> exn + (command \<times> io \<times> world)" where
  "configure_env sv s =
     (case s of (c, i, w) \<Rightarrow>
        if \<not> is_EnvCommand c then Inr (c, i, w)
        else if cmd_env c \<noteq> None then Inr (c, i, w)
        else
          (case command_poetry sv c w of
             Inl e \<Rightarrow> Inl e
           | Inr p \<Rightarrow>
               (case create_venv sv w p i of
                  Inl e \<Rightarrow> Inl e
                | Inr env \<Rightarrow>
                    Inr (set_env c env,
                         (if env_is_venv sv env \<and> is_verbose i
                          then write_line i (''Using virtualenv: <comment>'' @ env_path sv env @ ''</>'')
                          else i),
                         w\<lparr>venvs_created := venvs_created w + 1\<rparr>))))"

text \<open>\<^verbatim>\<open>_configure_installer\<close>.\<close>

definition build_installer :: "services \<Rightarrow> command \<Rightarrow> io \<Rightarrow> world \<Rightarrow> exn + (command \<times> world)" where
  "build_installer sv c i w =
     (case command_poetry sv c w of
        Inl e \<Rightarrow> Inl e
      | Inr p \<Rightarrow>
          (let inst = \<lparr>inst_io = io_ref i, inst_env = cmd_env c,
                       inst_package = base_package (heap w p), inst_locker = locker (heap w p),
                       inst_pool = pool (heap w p), inst_config = config (heap w p),
                       inst_use_executor = PBool False\<rparr>
           in case installer_error sv w inst of
                Some e \<Rightarrow> Inl e
              | None \<Rightarrow>
                  Inr (set_installer c
                         (inst\<lparr>inst_use_executor :=
                                 config_get sv (config (heap w p)) ''experimental.new-installer''
                                   (PBool False)\<rparr>),
                       w\<lparr>installers_built := installers_built w + 1\<rparr>)))"

definition configure_installer ::
  "services \<Rightarrow> command \<times> io \<times> world \<Rightarrow> exn + (command \<times> io \<times> world)" where
  "configure_installer sv s =
     (case s of (c, i, w) \<Rightarrow>
        if \<not> is_InstallerCommand c then Inr (c, i, w)
        else if cmd_installer c \<noteq> None then Inr (c, i, w)
        else
          (case build_installer sv c i w of
             Inl e \<Rightarrow> Inl e
           | Inr (c', w') \<Rightarrow> Inr (c', i, w')))"

text \<open>
  Modelled from the spec: the event dispatcher is library code. The three listeners are
  registered for the command event in this order (lines 103 to 105); they "fire strictly in
  registration order and each completes before the next starts", and "a listener exception aborts
  the pipeline".
\<close>

definition dispatch_command ::
  "services \<Rightarrow> command \<times> io \<times> world \<Rightarrow> exn + (command \<times> io \<times> world)" where
  "dispatch_command sv s =
     (case s of (c, i, w) \<Rightarrow>
        (case configure_env sv (c, i, register_command_loggers c i w) of
           Inl e \<Rightarrow> Inl e
         | Inr s' \<Rightarrow> configure_installer sv s'))"

text \<open>The pipeline run several times on the same command; an exception ends the sequence.\<close>

fun dispatch_times ::
  "nat \<Rightarrow> services \<Rightarrow> command \<times> io \<times> world \<Rightarrow> exn + (command \<times> io \<times> world)" where
  "dispatch_times 0 sv s = Inr s"
| "dispatch_times (Suc k) sv s =
     (case dispatch_command sv s of
        Inl e \<Rightarrow> Inl e
      | Inr s' \<Rightarrow> dispatch_times k sv s')"

subsection \<open>Notions for stating what the listeners do\<close>

text \<open>What a listener never changes of a command and of an \<^verbatim>\<open>IO\<close> object: the answers to the
  \<^verbatim>\<open>isinstance\<close> tests, the declared loggers, the identity and the verbosity of the output.\<close>

definition same_shape :: "command \<times> io \<Rightarrow> command \<times> io \<Rightarrow> bool" where
  "same_shape a b =
     (is_Command (fst a) = is_Command (fst b) \<and> is_EnvCommand (fst a) = is_EnvCommand (fst b)
      \<and> is_InstallerCommand (fst a) = is_InstallerCommand (fst b)
      \<and> cmd_loggers (fst a) = cmd_loggers (fst b)
      \<and> io_ref (snd a) = io_ref (snd b) \<and> is_debug (snd a) = is_debug (snd b)
      \<and> is_very_verbose (snd a) = is_very_verbose (snd b)
      \<and> is_verbose (snd a) = is_verbose (snd b))"

section \<open>A sample library and sample command lines\<close>

text \<open>
  Concrete values for the parameters of the model, to run it on concrete command lines.

  Modelled from the spec: \<^verbatim>\<open>first_argument\<close> of cleo's \<^verbatim>\<open>ArgvInput\<close> is library code and not
  among the sources; the spec calls it the first positional argument. For a command line whose
  options take no value it is the first token that does not start with a dash.
\<close>

definition first_positional :: "argv_input \<Rightarrow> string option" where
  "first_positional inp = find (\<lambda>t. take 1 t \<noteq> ''-'') (tokens inp)"

text \<open>
  A parser for definitions whose options are all flags. An \<^verbatim>\<open>ArgvInput\<close> takes every token that
  starts with a dash for an option; a \<^verbatim>\<open>RunArgvInput\<close> takes for options only the tokens that
  were declared as parameter options, all others are arguments. The parser reads the tokens in
  order and stops with a \<^verbatim>\<open>CleoException\<close> at an option that the definition does not have. A
  flag is \<^verbatim>\<open>True\<close> when one of its forms was read as an option, and \<^verbatim>\<open>False\<close> otherwise.
\<close>

definition read_as_option :: "argv_input \<Rightarrow> string \<Rightarrow> bool" where
  "read_as_option inp t =
     (take 1 t = ''-'' \<and> (input_class inp = ArgvInput \<or> t \<in> set (parameter_options inp)))"

definition flag_parse ::
  "input_definition \<Rightarrow> argv_input \<Rightarrow> (pyval dict \<times> pyval dict) \<times> exn option" where
  "flag_parse d inp =
     (let known = (\<lambda>t. list_ex (\<lambda>opt. t \<in> set (option_forms opt)) d);
          bad = (\<lambda>t. read_as_option inp t \<and> \<not> known t);
          seen = filter (read_as_option inp) (takeWhile (\<lambda>t. \<not> bad t) (tokens inp))
      in (([], map (\<lambda>opt. (opt_name opt, PBool (list_ex (\<lambda>t. t \<in> set (option_forms opt)) seen))) d),
          (case filter bad (tokens inp) of
             [] \<Rightarrow> None
           | t # ts \<Rightarrow> Some (CleoException (''The option does not exist: '' @ t)))))"

definition sample_cleo :: cleo where
  "sample_cleo =
     \<lparr>parse = flag_parse,
      first_argument = first_positional,
      unknown_option = (\<lambda>n. OtherException (''The option does not exist: '' @ n)),
      base_configure_io = Inr,
      has_parameter_option = (\<lambda>inp n. n \<in> set (tokens inp)),
      parameter_option =
        (\<lambda>inp n. case dropWhile (\<lambda>t. t \<noteq> n) (tokens inp) of
                    [] \<Rightarrow> PBool False
                  | [t] \<Rightarrow> PNone
                  | t # u # ts \<Rightarrow> PStr u)\<rparr>"

text \<open>
  The global options \<^verbatim>\<open>verbose\<close> and \<^verbatim>\<open>quiet\<close> of the base class, and \<^verbatim>\<open>no-plugins\<close>, which
  \<^verbatim>\<open>_default_definition\<close> of this class adds (lines 345 to 347).
\<close>

definition sample_definition :: input_definition where
  "sample_definition =
     [\<lparr>opt_name = ''verbose'', opt_shortcut = Some ''v|vv|vvv''\<rparr>,
      \<lparr>opt_name = ''quiet'', opt_shortcut = Some ''q''\<rparr>,
      \<lparr>opt_name = ''no-plugins'', opt_shortcut = None\<rparr>]"

definition sample_app :: application where
  "sample_app = new_application sample_definition"

text \<open>An \<^verbatim>\<open>IO\<close> object at normal verbosity whose input is a fresh \<^verbatim>\<open>ArgvInput\<close> with the given tokens.\<close>

definition sample_io :: "string list \<Rightarrow> io" where
  "sample_io ts =
     \<lparr>io_ref = 0,
      io_input = \<lparr>input_class = ArgvInput, tokens = ts, parameter_options = [],
                  bound_definition = None, arguments = [], options = []\<rparr>,
      is_debug = False, is_very_verbose = False, is_verbose = False, written = []\<rparr>"

text \<open>
  Collaborators that never raise, a state in which nothing has happened yet, a command without
  any capability and a command with all three.
\<close>

definition sample_poetry :: Poetry where
  "sample_poetry =
     \<lparr>base_file = 1, base_local_config = 2, base_package = 3, locker = 4, config = 5, pool = 6,
      plugin_manager = None\<rparr>"

definition plain_command :: command where
  "plain_command =
     \<lparr>is_Command = False, is_EnvCommand = False, is_InstallerCommand = False, cmd_loggers = [],
      cmd_env = None, cmd_installer = None\<rparr>"

definition install_command :: command where
  "install_command =
     \<lparr>is_Command = True, is_EnvCommand = True, is_InstallerCommand = True,
      cmd_loggers = [''poetry.core.masonry.builders.builder''], cmd_env = None,
      cmd_installer = None\<rparr>"

definition sample_services :: services where
  "sample_services =
     \<lparr>command_poetry = (\<lambda>c w. Inr 0),
      create_venv = (\<lambda>w p i. Inr 7),
      env_is_venv = (\<lambda>e. True),
      env_path = (\<lambda>e. ''/venv''),
      installer_error = (\<lambda>w inst. None),
      config_get = (\<lambda>c k d. d),
      manager_load_plugins = (\<lambda>w. None),
      manager_activate = (\<lambda>w app. None),
      base_run = (\<lambda>s i. (s, Inr 0)),
      create_poetry = (\<lambda>w i d. Inr sample_poetry),
      import_module = (\<lambda>n. Inr 0),
      getattr_class = (\<lambda>m n. Inr 0),
      instantiate = (\<lambda>c. Inr plain_command)\<rparr>"

definition sample_world :: world where
  "sample_world =
     \<lparr>loggers = (\<lambda>n. \<lparr>handlers = [], level = 0\<rparr>), heap = (\<lambda>r. sample_poetry), allocated = 0,
      discoveries = 0, activations = 0, venvs_created = 0, installers_built = 0\<rparr>"

text \<open>
  Collaborators as above, except that the activation of the plugins raises: a plugin whose
  \<^verbatim>\<open>activate\<close> fails.
\<close>

definition failing_services :: services where
  "failing_services =
     sample_services\<lparr>manager_activate := (\<lambda>w app. Some (OtherException ''plugin''))\<rparr>"

section \<open>Theorems\<close>

subsection \<open>The setters of the Poetry object\<close>

lemma set_locker_attrs:
  "attrs (fst (set_locker h r v) r) =
     (base_file (h r), base_local_config (h r), base_package (h r), v, config (h r), pool (h r),
      plugin_manager (h r))"
  by (simp add: set_locker_def attrs_def)

lemma set_pool_attrs:
  "attrs (fst (set_pool h r v) r) =
     (base_file (h r), base_local_config (h r), base_package (h r), locker (h r), config (h r), v,
      plugin_manager (h r))"
  by (simp add: set_pool_def attrs_def)

lemma set_config_attrs:
  "attrs (fst (set_config h r v) r) =
     (base_file (h r), base_local_config (h r), base_package (h r), locker (h r), v, pool (h r),
      plugin_manager (h r))"
  by (simp add: set_config_def attrs_def)

lemma set_plugin_manager_attrs:
  "attrs (fst (set_plugin_manager h r v) r) =
     (base_file (h r), base_local_config (h r), base_package (h r), locker (h r), config (h r), pool (h r),
      Some v)"
  by (simp add: set_plugin_manager_def attrs_def)

lemma setters_return_self:
  "snd (set_locker h r v) = r" "snd (set_pool h r v) = r"
  "snd (set_config h r v) = r" "snd (set_plugin_manager h r v) = r"
  by (simp_all add: set_locker_def set_pool_def set_config_def set_plugin_manager_def)

lemma setters_other_objects:
  "(fst (set_locker h r v))(r := h r) = h" "(fst (set_pool h r v))(r := h r) = h"
  "(fst (set_config h r v))(r := h r) = h" "(fst (set_plugin_manager h r v))(r := h r) = h"
  by (simp_all add: set_locker_def set_pool_def set_config_def set_plugin_manager_def)

text \<open>
  C10. Each of \<^verbatim>\<open>set_locker\<close>, \<^verbatim>\<open>set_pool\<close>, \<^verbatim>\<open>set_config\<close> and \<^verbatim>\<open>set_plugin_manager\<close>
  writes the one attribute it names and keeps the six others of the instance; it returns the
  reference it was called on (the same instance); and it touches no other Poetry object: putting
  the old instance back at \<^verbatim>\<open>self\<close> restores the whole store.
\<close>

theorem poetry_setters_frame:
  "attrs (fst (set_locker h r v) r) =
     (base_file (h r), base_local_config (h r), base_package (h r), v, config (h r), pool (h r),
      plugin_manager (h r))
   \<and> attrs (fst (set_pool h r v) r) =
     (base_file (h r), base_local_config (h r), base_package (h r), locker (h r), config (h r), v,
      plugin_manager (h r))
   \<and> attrs (fst (set_config h r v) r) =
     (base_file (h r), base_local_config (h r), base_package (h r), locker (h r), v, pool (h r),
      plugin_manager (h r))
   \<and> attrs (fst (set_plugin_manager h r v) r) =
     (base_file (h r), base_local_config (h r), base_package (h r), locker (h r), config (h r), pool (h r),
      Some v)
   \<and> snd (set_locker h r v) = r \<and> snd (set_pool h r v) = r
   \<and> snd (set_config h r v) = r \<and> snd (set_plugin_manager h r v) = r
   \<and> (fst (set_locker h r v))(r := h r) = h \<and> (fst (set_pool h r v))(r := h r) = h
   \<and> (fst (set_config h r v))(r := h r) = h
   \<and> (fst (set_plugin_manager h r v))(r := h r) = h"
  using set_locker_attrs [of h r v] set_pool_attrs [of h r v] set_config_attrs [of h r v]
    set_plugin_manager_attrs [of h r v] setters_return_self [of h r v]
    setters_other_objects [of h r v]
  by blast

subsection \<open>The two loops of \<^verbatim>\<open>_configure_io\<close>\<close>

lemma foldl_add_parameter_option:
  "foldl add_parameter_option ri xs = ri\<lparr>parameter_options := parameter_options ri @ xs\<rparr>"
  by (induction xs arbitrary: ri) (simp_all add: add_parameter_option_def)

lemma shortcut_options_Nil: "shortcut_options [] = []"
  by (simp add: shortcut_options_def lstrip_dash_def)

lemma declare_option_eq:
  "declare_option opt ri = ri\<lparr>parameter_options := parameter_options ri @ option_forms opt\<rparr>"
  by (simp add: declare_option_def option_forms_def foldl_add_parameter_option
      add_parameter_option_def Let_def shortcut_options_Nil split: option.splits)

lemma declare_supplied_eq:
  "declare_supplied lib d opts ri = Inr ri' \<Longrightarrow>
   ri' = ri\<lparr>parameter_options :=
            parameter_options ri @ concat (map (\<lambda>(n, v). declared_forms d n) (snapshot opts))\<rparr>"
proof (induction opts arbitrary: ri)
  case Nil
  then show ?case by (simp add: snapshot_def)
next
  case (Cons a opts)
  obtain n v where a: "a = (n, v)" by (cases a)
  show ?case
  proof (cases "truthy v")
    case False
    with Cons a show ?thesis by (simp add: snapshot_def)
  next
    case True
    with Cons.prems a obtain opt where
      f: "find (\<lambda>opt. opt_name opt = n) d = Some opt" and
      r: "declare_supplied lib d opts (declare_option opt ri) = Inr ri'"
      by (auto simp: definition_option_def split: option.splits sum.splits)
    from Cons.IH [OF r] show ?thesis using True a f
      by (simp add: snapshot_def declared_forms_def declare_option_eq)
  qed
qed

lemma declare_supplied_found:
  "declare_supplied lib d opts ri = Inr ri' \<Longrightarrow> (n, v) \<in> set opts \<Longrightarrow> truthy v \<Longrightarrow>
   \<exists>opt. find (\<lambda>opt. opt_name opt = n) d = Some opt"
proof (induction opts arbitrary: ri)
  case Nil
  then show ?case by simp
next
  case (Cons a opts)
  obtain n' v' where a: "a = (n', v')" by (cases a)
  show ?case
  proof (cases "truthy v'")
    case False
    with Cons a show ?thesis by auto
  next
    case True
    with Cons.prems a show ?thesis
      using Cons.IH
      by (auto simp: definition_option_def split: option.splits sum.splits)
  qed
qed

lemma reapply_values_eq:
  "reapply_values opts ri =
   ri\<lparr>options := foldl (\<lambda>os (n, v). dict_set os n v) (options ri) (snapshot opts)\<rparr>"
proof (induction opts arbitrary: ri)
  case Nil
  then show ?case by (simp add: snapshot_def)
next
  case (Cons a opts)
  obtain n v where a: "a = (n, v)" by (cases a)
  show ?case using Cons.IH a
    by (simp add: snapshot_def set_option_def)
qed

lemma map_of_dict_set: "map_of (dict_set kvs k v) = (map_of kvs)(k \<mapsto> v)"
  by (induction kvs) (auto simp: fun_eq_iff)

lemma map_of_foldl_dict_set:
  "map_of (foldl (\<lambda>os (n, v). dict_set os n v) os kvs) = map_of os ++ map_of (rev kvs)"
proof (induction kvs arbitrary: os)
  case Nil
  then show ?case by simp
next
  case (Cons a kvs)
  obtain n v where a: "a = (n, v)" by (cases a)
  show ?case using Cons.IH [of "dict_set os n v"] a
    by (simp add: map_of_dict_set map_add_def fun_eq_iff split: option.splits)
qed

lemma bind_keeps:
  "tokens (fst (bind lib i d)) = tokens i"
  "input_class (fst (bind lib i d)) = input_class i"
  "parameter_options (fst (bind lib i d)) = parameter_options i"
  by (simp_all add: bind_def split: prod.splits)

lemma rebind_input_unfold:
  "rebind_input lib app i =
     (case suppress_CleoException (snd (bind lib (io_input i) (app_definition app))) of
        Some e \<Rightarrow> Inl e
      | None \<Rightarrow>
          if first_argument lib (fst (bind lib (io_input i) (app_definition app))) = Some ''run'' then
            (case declare_supplied lib (app_definition app)
                    (options (fst (bind lib (io_input i) (app_definition app))))
                    (new_RunArgvInput (name_or_empty app #
                       tokens (fst (bind lib (io_input i) (app_definition app))))) of
               Inl e \<Rightarrow> Inl e
             | Inr ri \<Rightarrow>
                 (case suppress_CleoException (snd (bind lib ri (app_definition app))) of
                    Some e \<Rightarrow> Inl e
                  | None \<Rightarrow>
                      Inr (i\<lparr>io_input :=
                             reapply_values
                               (options (fst (bind lib (io_input i) (app_definition app))))
                               (fst (bind lib ri (app_definition app)))\<rparr>)))
          else Inr (i\<lparr>io_input := fst (bind lib (io_input i) (app_definition app))\<rparr>))"
  unfolding rebind_input_def Let_def set_input_def case_prod_beta
  by (simp split: option.splits sum.splits)

lemma rebind_input_run:
  assumes ok: "rebind_input lib app i = Inr i'"
    and run: "first_argument lib (fst (bind lib (io_input i) (app_definition app))) = Some ''run''"
  defines "inp \<equiv> fst (bind lib (io_input i) (app_definition app))"
  defines "declared \<equiv> (new_RunArgvInput (name_or_empty app # tokens inp))
     \<lparr>parameter_options :=
        concat (map (\<lambda>(n, v). declared_forms (app_definition app) n) (snapshot (options inp)))\<rparr>"
  shows "i' = i\<lparr>io_input := reapply_values (options inp) (fst (bind lib declared (app_definition app)))\<rparr>"
    and "declare_supplied lib (app_definition app) (options inp)
           (new_RunArgvInput (name_or_empty app # tokens inp)) = Inr declared"
proof -
  from ok have s1: "suppress_CleoException (snd (bind lib (io_input i) (app_definition app))) = None"
    by (subst (asm) rebind_input_unfold) (simp split: option.splits)
  from ok s1 run obtain ri where
    ds: "declare_supplied lib (app_definition app) (options inp)
           (new_RunArgvInput (name_or_empty app # tokens inp)) = Inr ri"
    by (subst (asm) rebind_input_unfold) (simp add: inp_def split: sum.splits)
  from declare_supplied_eq [OF ds] have ri: "ri = declared"
    by (simp add: declared_def new_RunArgvInput_def)
  show "declare_supplied lib (app_definition app) (options inp)
           (new_RunArgvInput (name_or_empty app # tokens inp)) = Inr declared"
    using ds ri by simp
  from ok s1 run ds show "i' = i\<lparr>io_input := reapply_values (options inp) (fst (bind lib declared (app_definition app)))\<rparr>"
    unfolding ri
    by (subst (asm) rebind_input_unfold) (simp add: inp_def split: option.splits)
qed


subsection \<open>Splitting a shortcut\<close>

lemma re_split_bar_no_bar: "CHR ''|'' \<notin> set s \<Longrightarrow> re_split_bar s = [s]"
  by (induction s rule: re_split_bar.induct) auto

lemma re_split_bar_not_Nil: "re_split_bar s \<noteq> []"
  by (induction s rule: re_split_bar.induct) (auto split: list.splits)

lemma re_split_bar_at_bar:
  "CHR ''|'' \<notin> set a \<Longrightarrow>
   re_split_bar (a @ CHR ''|'' # b) =
     a # re_split_bar (case b of [] \<Rightarrow> [] | c # b' \<Rightarrow> if c = CHR ''-'' then b' else b)"
proof (induction a)
  case Nil
  then show ?case by (cases b) auto
next
  case (Cons x a)
  then show ?case by (cases a) (auto split: list.splits)
qed

lemma lstrip_dash_no_dash: "take 1 (lstrip_dash s) \<noteq> ''-''"
  by (induction s) (auto simp: lstrip_dash_def)

lemma shortcut_options_single_dash:
  "x \<in> set (shortcut_options sc) \<Longrightarrow> \<exists>a. x = CHR ''-'' # a \<and> take 1 a \<noteq> ''-''"
  using lstrip_dash_no_dash by (auto simp: shortcut_options_def simp del: One_nat_def)

lemma shortcut_options_no_alias: "lstrip_dash sc = [] \<Longrightarrow> shortcut_options sc = []"
  by (simp add: shortcut_options_def)

lemma shortcut_options_verbose: "shortcut_options ''-v|-vv|-vvv'' = [''-v'', ''-vv'', ''-vvv'']"
  by (simp add: shortcut_options_def lstrip_dash_def)

subsection \<open>The parameter options of the rebuilt input\<close>

lemma reapply_values_keeps:
  "parameter_options (reapply_values opts ri) = parameter_options ri"
  "tokens (reapply_values opts ri) = tokens ri"
  "input_class (reapply_values opts ri) = input_class ri"
  by (simp_all add: reapply_values_eq)

lemma rebind_input_parameter_options:
  assumes "rebind_input lib app i = Inr i'"
    and "first_argument lib (fst (bind lib (io_input i) (app_definition app))) = Some ''run''"
  shows "parameter_options (io_input i') =
     concat (map (\<lambda>(n, v). declared_forms (app_definition app) n)
       (snapshot (options (fst (bind lib (io_input i) (app_definition app))))))"
  using rebind_input_run(1) [OF assms]
  by (simp add: reapply_values_keeps bind_keeps)

lemma declared_forms_in_concat:
  "(n, v) \<in> set opts \<Longrightarrow> truthy v \<Longrightarrow>
   set (declared_forms d n) \<subseteq> set (concat (map (\<lambda>(n, v). declared_forms d n) (snapshot opts)))"
  by (force simp: snapshot_def)

subsection \<open>The sample command line \<^verbatim>\<open>poetry -v run foo\<close>\<close>

lemma sample_bind:
  "bind sample_cleo (io_input (sample_io [''-v'', ''run'', ''foo''])) (app_definition sample_app) =
     (\<lparr>input_class = ArgvInput, tokens = [''-v'', ''run'', ''foo''], parameter_options = [],
       bound_definition = Some sample_definition, arguments = [],
       options = [(''verbose'', PBool True), (''quiet'', PBool False),
                  (''no-plugins'', PBool False)]\<rparr>, None)"
  by code_simp

lemma sample_first_argument:
  "first_argument sample_cleo
     (fst (bind sample_cleo (io_input (sample_io [''-v'', ''run'', ''foo'']))
        (app_definition sample_app))) = Some ''run''"
  by code_simp

lemma sample_rebind:
  "rebind_input sample_cleo sample_app (sample_io [''-v'', ''run'', ''foo'']) =
     Inr ((sample_io [''-v'', ''run'', ''foo''])
       \<lparr>io_input :=
          \<lparr>input_class = RunArgvInput, tokens = [''-v'', ''run'', ''foo''],
           parameter_options = [''--verbose'', ''-v'', ''-vv'', ''-vvv''],
           bound_definition = Some sample_definition, arguments = [],
           options = [(''verbose'', PBool True), (''quiet'', PBool False),
                      (''no-plugins'', PBool False)]\<rparr>\<rparr>)"
  by code_simp

subsection \<open>Shortcut aliases\<close>

text \<open>
  C4. Let \<^verbatim>\<open>_configure_io\<close> take the pass-through branch and reach the call of the base class.
  Every option with a truthy bound value is an option of the definition, and each alias of its
  shortcut is a parameter option of the rebuilt input; the parameter options of the rebuilt input
  are, in order, the forms of the snapshotted options: the long form, then the aliases. The
  aliases of a shortcut are the fragments that are not empty of the shortcut, stripped of leading
  dashes and split at every bar together with a dash that follows it, each stripped of leading
  dashes and prefixed with one dash; so an alias option starts with exactly one dash. The
  shortcut \<^verbatim>\<open>-v|-vv|-vvv\<close> gives \<^verbatim>\<open>-v\<close>, \<^verbatim>\<open>-vv\<close> and \<^verbatim>\<open>-vvv\<close>, and a shortcut of dashes only gives
  no alias.
\<close>

theorem shortcut_aliases_declared:
  assumes "rebind_input lib app i = Inr i'"
    and "first_argument lib (fst (bind lib (io_input i) (app_definition app))) = Some ''run''"
    and "(n, v) \<in> set (options (fst (bind lib (io_input i) (app_definition app))))"
    and "truthy v"
  shows
    "(\<exists>opt. find (\<lambda>opt. opt_name opt = n) (app_definition app) = Some opt \<and>
        (case opt_shortcut opt of
           None \<Rightarrow> True
         | Some sc \<Rightarrow> set (shortcut_options sc) \<subseteq> set (parameter_options (io_input i'))))
     \<and> parameter_options (io_input i') =
         concat (map (\<lambda>(n, v). declared_forms (app_definition app) n)
           (snapshot (options (fst (bind lib (io_input i) (app_definition app))))))
     \<and> (\<forall>d m opt. find (\<lambda>opt. opt_name opt = m) d = Some opt \<longrightarrow>
           declared_forms d m =
             (''--'' @ m) # (case opt_shortcut opt of None \<Rightarrow> [] | Some sc \<Rightarrow> shortcut_options sc))
     \<and> (\<forall>sc. shortcut_options sc =
           map (\<lambda>s. CHR ''-'' # lstrip_dash s)
             (filter (\<lambda>s. s \<noteq> []) (re_split_bar (lstrip_dash sc))))
     \<and> (\<forall>s. CHR ''|'' \<notin> set s \<longrightarrow> re_split_bar s = [s])
     \<and> (\<forall>a b. CHR ''|'' \<notin> set a \<longrightarrow>
           re_split_bar (a @ CHR ''|'' # b) =
             a # re_split_bar (case b of [] \<Rightarrow> [] | c # b' \<Rightarrow> if c = CHR ''-'' then b' else b))
     \<and> (\<forall>sc x. x \<in> set (shortcut_options sc) \<longrightarrow> (\<exists>a. x = CHR ''-'' # a \<and> take 1 a \<noteq> ''-''))
     \<and> shortcut_options ''-v|-vv|-vvv'' = [''-v'', ''-vv'', ''-vvv'']
     \<and> (\<forall>sc. lstrip_dash sc = [] \<longrightarrow> shortcut_options sc = [])"
proof -
  let ?d = "app_definition app"
  let ?inp = "fst (bind lib (io_input i) ?d)"
  have po: "parameter_options (io_input i') =
      concat (map (\<lambda>(n, v). declared_forms ?d n) (snapshot (options ?inp)))"
    by (rule rebind_input_parameter_options [OF assms(1,2)])
  from declare_supplied_found [OF rebind_input_run(2) [OF assms(1,2)] assms(3,4)]
  obtain opt where f: "find (\<lambda>opt. opt_name opt = n) ?d = Some opt" by blast
  have "set (declared_forms ?d n) \<subseteq> set (parameter_options (io_input i'))"
    unfolding po by (rule declared_forms_in_concat [OF assms(3,4)])
  with f have sub: "case opt_shortcut opt of None \<Rightarrow> True
      | Some sc \<Rightarrow> set (shortcut_options sc) \<subseteq> set (parameter_options (io_input i'))"
    by (auto simp: declared_forms_def option_forms_def split: option.splits)
  have nm: "\<forall>d m opt. find (\<lambda>opt. opt_name opt = m) d = Some opt \<longrightarrow>
           declared_forms d m =
             (''--'' @ m) # (case opt_shortcut opt of None \<Rightarrow> [] | Some sc \<Rightarrow> shortcut_options sc)"
  proof (intro allI impI)
    fix d :: input_definition and m opt
    assume fm: "find (\<lambda>opt. opt_name opt = m) d = Some opt"
    then have "opt_name opt = m" by (auto simp: find_Some_iff)
    with fm show "declared_forms d m =
        (''--'' @ m) # (case opt_shortcut opt of None \<Rightarrow> [] | Some sc \<Rightarrow> shortcut_options sc)"
      by (simp add: declared_forms_def option_forms_def)
  qed
  show ?thesis
    using f sub po nm re_split_bar_no_bar re_split_bar_at_bar shortcut_options_single_dash
      shortcut_options_verbose shortcut_options_no_alias
    by (simp add: shortcut_options_def [symmetric] del: One_nat_def)
qed

theorem shortcut_aliases_declared_witness:
  "rebind_input sample_cleo sample_app (sample_io [''-v'', ''run'', ''foo'']) =
     Inr ((sample_io [''-v'', ''run'', ''foo''])
       \<lparr>io_input :=
          \<lparr>input_class = RunArgvInput, tokens = [''-v'', ''run'', ''foo''],
           parameter_options = [''--verbose'', ''-v'', ''-vv'', ''-vvv''],
           bound_definition = Some sample_definition, arguments = [],
           options = [(''verbose'', PBool True), (''quiet'', PBool False),
                      (''no-plugins'', PBool False)]\<rparr>\<rparr>)
   \<and> first_argument sample_cleo
        (fst (bind sample_cleo (io_input (sample_io [''-v'', ''run'', ''foo'']))
           (app_definition sample_app))) = Some ''run''
   \<and> (''verbose'', PBool True) \<in> set (options (fst (bind sample_cleo
        (io_input (sample_io [''-v'', ''run'', ''foo''])) (app_definition sample_app))))
   \<and> truthy (PBool True)
   \<and> (\<exists>opt. find (\<lambda>opt. opt_name opt = ''verbose'') (app_definition sample_app) = Some opt \<and>
        (case opt_shortcut opt of
           None \<Rightarrow> True
         | Some sc \<Rightarrow> set (shortcut_options sc) \<subseteq> {''--verbose'', ''-v'', ''-vv'', ''-vvv''}))"
proof -
  have in_opts: "(''verbose'', PBool True) \<in> set (options (fst (bind sample_cleo
        (io_input (sample_io [''-v'', ''run'', ''foo''])) (app_definition sample_app))))"
    by (simp add: sample_bind)
  have t: "truthy (PBool True)" by simp
  from shortcut_aliases_declared [OF sample_rebind sample_first_argument in_opts t, THEN conjunct1]
  have "\<exists>opt. find (\<lambda>opt. opt_name opt = ''verbose'') (app_definition sample_app) = Some opt \<and>
        (case opt_shortcut opt of
           None \<Rightarrow> True
         | Some sc \<Rightarrow> set (shortcut_options sc) \<subseteq> {''--verbose'', ''-v'', ''-vv'', ''-vvv''})"
    by (auto split: option.splits)
  with sample_rebind sample_first_argument in_opts t show ?thesis by blast
qed

subsection \<open>Supplied and unsupplied options\<close>

lemma long_forms_of_declared:
  assumes "\<forall>(n, v) \<in> set kvs. \<exists>opt. find (\<lambda>opt. opt_name opt = n) d = Some opt"
  shows "filter (\<lambda>p. take 2 p = ''--'') (concat (map (\<lambda>(n, v). declared_forms d n) kvs)) =
         map (\<lambda>(n, v). ''--'' @ n) kvs"
  using assms
proof (induction kvs)
  case Nil
  then show ?case by simp
next
  case (Cons a kvs)
  obtain n v where a: "a = (n, v)" by (cases a)
  from Cons.prems a obtain opt where f: "find (\<lambda>opt. opt_name opt = n) d = Some opt" by auto
  then have nm: "opt_name opt = n" by (auto simp: find_Some_iff)
  have al: "filter (\<lambda>p. take 2 p = ''--'')
      (case opt_shortcut opt of None \<Rightarrow> [] | Some sc \<Rightarrow> shortcut_options sc) = []"
  proof (cases "opt_shortcut opt")
    case None
    then show ?thesis by simp
  next
    case (Some sc)
    have "\<And>x. x \<in> set (shortcut_options sc) \<Longrightarrow> take 2 x \<noteq> ''--''"
    proof -
      fix x assume "x \<in> set (shortcut_options sc)"
      from shortcut_options_single_dash [OF this]
      obtain b where "x = CHR ''-'' # b" and "take 1 b \<noteq> ''-''" by blast
      then show "take 2 x \<noteq> ''--''" by (cases b) auto
    qed
    with Some show ?thesis by (simp add: filter_empty_conv)
  qed
  from Cons.IH Cons.prems have "filter (\<lambda>p. take 2 p = ''--'')
      (concat (map (\<lambda>(n, v). declared_forms d n) kvs)) = map (\<lambda>(n, v). ''--'' @ n) kvs"
    by simp
  with a f nm al show ?case
    by (simp add: declared_forms_def option_forms_def)
qed

lemma snapshot_subset: "set (snapshot opts) \<subseteq> set opts"
  by (auto simp: snapshot_def)

lemma distinct_snapshot: "distinct (map fst opts) \<Longrightarrow> distinct (map fst (snapshot opts))"
  by (simp add: snapshot_def distinct_map_filter)

lemma snapshot_iff: "(n, v) \<in> set (snapshot opts) \<longleftrightarrow> (n, v) \<in> set opts \<and> truthy v"
  by (auto simp: snapshot_def)

lemma map_of_rev_snapshot_truthy:
  assumes "distinct (map fst opts)" "(n, v) \<in> set opts" "truthy v"
  shows "map_of (rev (snapshot opts)) n = Some v"
proof -
  have "distinct (map fst (rev (snapshot opts)))"
    using distinct_snapshot [OF assms(1)] by (simp add: rev_map [symmetric])
  moreover have "(n, v) \<in> set (rev (snapshot opts))"
    using assms(2,3) by (simp add: snapshot_iff)
  ultimately show ?thesis by (rule map_of_is_SomeI)
qed

lemma map_of_rev_snapshot_falsy:
  assumes "distinct (map fst opts)" "(n, v) \<in> set opts" "\<not> truthy v"
  shows "map_of (rev (snapshot opts)) n = None"
proof -
  have "n \<notin> fst ` set (snapshot opts)"
  proof
    assume "n \<in> fst ` set (snapshot opts)"
    then obtain v' where "(n, v') \<in> set opts" "truthy v'"
      by (auto simp: snapshot_iff)
    with assms(1,2) have "v' = v" by (meson eq_key_imp_eq_value)
    with \<open>truthy v'\<close> assms(3) show False by simp
  qed
  then show ?thesis by (simp add: map_of_eq_None_iff)
qed

subsection \<open>The pass-through rewrite\<close>



subsection \<open>Listeners and capabilities\<close>

lemma register_command_loggers_skip:
  "\<not> is_Command c \<Longrightarrow> register_command_loggers c i w = w"
  by (simp add: register_command_loggers_def)

lemma configure_env_skip:
  "\<not> is_EnvCommand c \<Longrightarrow> configure_env sv (c, i, w) = Inr (c, i, w)"
  by (simp add: configure_env_def)

lemma configure_installer_skip:
  "\<not> is_InstallerCommand c \<Longrightarrow> configure_installer sv (c, i, w) = Inr (c, i, w)"
  by (simp add: configure_installer_def)

lemma dispatch_command_skip:
  "\<not> is_Command c \<Longrightarrow> \<not> is_EnvCommand c \<Longrightarrow> \<not> is_InstallerCommand c \<Longrightarrow>
   dispatch_command sv (c, i, w) = Inr (c, i, w)"
  by (simp add: dispatch_command_def register_command_loggers_skip configure_env_skip
      configure_installer_skip)

text \<open>
  C5. A listener leaves the command, the \<^verbatim>\<open>IO\<close> object and the state outside them as they are
  when the command lacks the capability the listener looks for: the logger configuration for a
  command that is not a \<^verbatim>\<open>Command\<close>, the environment resolution for one that is not an
  \<^verbatim>\<open>EnvCommand\<close>, the installer wiring for one that is not an \<^verbatim>\<open>InstallerCommand\<close>. The whole
  pipeline on a command with none of the three returns normally and changes nothing: no handler
  on any logger, no environment, no installer, and no collaborator was called.
\<close>

theorem listeners_need_capability:
  "(\<not> is_Command c \<longrightarrow> register_command_loggers c i w = w)
   \<and> (\<not> is_EnvCommand c \<longrightarrow> configure_env sv (c, i, w) = Inr (c, i, w))
   \<and> (\<not> is_InstallerCommand c \<longrightarrow> configure_installer sv (c, i, w) = Inr (c, i, w))
   \<and> (\<not> is_Command c \<and> \<not> is_EnvCommand c \<and> \<not> is_InstallerCommand c \<longrightarrow>
        dispatch_command sv (c, i, w) = Inr (c, i, w))"
  using register_command_loggers_skip [of c i w] configure_env_skip [of c sv i w]
    configure_installer_skip [of c sv i w] dispatch_command_skip [of c sv i w]
  by blast

theorem listeners_need_capability_witness:
  "\<not> is_Command plain_command \<and> \<not> is_EnvCommand plain_command
   \<and> \<not> is_InstallerCommand plain_command
   \<and> register_command_loggers plain_command (sample_io []) sample_world = sample_world
   \<and> configure_env sample_services (plain_command, sample_io [], sample_world) =
       Inr (plain_command, sample_io [], sample_world)
   \<and> configure_installer sample_services (plain_command, sample_io [], sample_world) =
       Inr (plain_command, sample_io [], sample_world)
   \<and> dispatch_command sample_services (plain_command, sample_io [], sample_world) =
       Inr (plain_command, sample_io [], sample_world)
   \<and> cmd_env plain_command = None \<and> cmd_installer plain_command = None"
proof -
  have c: "\<not> is_Command plain_command" "\<not> is_EnvCommand plain_command"
    "\<not> is_InstallerCommand plain_command" "cmd_env plain_command = None"
    "cmd_installer plain_command = None"
    by (simp_all add: plain_command_def)
  from listeners_need_capability [of plain_command "sample_io []" sample_world sample_services] c
  show ?thesis by blast
qed

subsection \<open>The logger configuration\<close>

lemma foldl_configure_logger:
  "foldl (configure_logger h i) reg names k =
     (if k \<in> getLogger ` set names then \<lparr>handlers = [h], level = logger_level i k\<rparr> else reg k)"
proof (induction names arbitrary: reg)
  case Nil
  then show ?case by simp
next
  case (Cons n names)
  show ?case
    by (simp add: Cons.IH) (auto simp: configure_logger_def)
qed

lemma startswith_getLogger:
  "startswith (getLogger n) ''poetry.core.masonry.builders'' =
   startswith n ''poetry.core.masonry.builders''"
  by (simp add: getLogger_def startswith_def)

lemma logger_level_getLogger: "logger_level i (getLogger n) = logger_level i n"
  by (simp add: logger_level_def startswith_getLogger)

lemma logger_level_cases:
  "logger_level i n =
     (if is_debug i then 10
      else if is_very_verbose i \<or> is_verbose i then 20
      else if startswith n ''poetry.core.masonry.builders'' then 20
      else 30)"
  by (simp add: logger_level_def WARNING_def INFO_def DEBUG_def)

lemma register_command_loggers_logger:
  assumes "is_Command c"
  shows "loggers (register_command_loggers c i w) k =
     (if k \<in> getLogger ` set (base_loggers @ cmd_loggers c)
      then \<lparr>handlers = [IOHandler (io_ref i) (Some IOFormatter)], level = logger_level i k\<rparr>
      else loggers w k)"
  using assms
  by (simp add: register_command_loggers_def foldl_configure_logger Let_def del: foldl_append)

text \<open>
  C7. For a command that is a \<^verbatim>\<open>Command\<close>, after the logger configuration every channel of the
  three base channels and of the loggers the command declares has exactly one handler, an
  \<^verbatim>\<open>IOHandler\<close> on the \<^verbatim>\<open>IO\<close> object of the event with an \<^verbatim>\<open>IOFormatter\<close>, and the level
  \<^verbatim>\<open>DEBUG\<close> if the output is in debug mode, else \<^verbatim>\<open>INFO\<close> if it is verbose or very verbose, else
  \<^verbatim>\<open>INFO\<close> if the name of the channel starts with \<^verbatim>\<open>poetry.core.masonry.builders\<close>, else
  \<^verbatim>\<open>WARNING\<close>. Every other logger, and everything else of the state, is as before.
\<close>

theorem command_loggers_configured:
  assumes "is_Command c"
  shows
    "(\<forall>n \<in> set (base_loggers @ cmd_loggers c).
        handlers (loggers (register_command_loggers c i w) (getLogger n)) =
          [IOHandler (io_ref i) (Some IOFormatter)]
        \<and> level (loggers (register_command_loggers c i w) (getLogger n)) =
          (if is_debug i then DEBUG
           else if is_very_verbose i \<or> is_verbose i then INFO
           else if startswith n ''poetry.core.masonry.builders'' then INFO
           else WARNING))
     \<and> (\<forall>k. k \<notin> getLogger ` set (base_loggers @ cmd_loggers c) \<longrightarrow>
          loggers (register_command_loggers c i w) k = loggers w k)
     \<and> register_command_loggers c i w = w\<lparr>loggers := loggers (register_command_loggers c i w)\<rparr>
     \<and> base_loggers =
         [''poetry.packages.locker'', ''poetry.packages.package'',
          ''poetry.utils.password_manager'']
     \<and> WARNING = 30 \<and> INFO = 20 \<and> DEBUG = 10"
proof -
  have a: "\<forall>n \<in> set (base_loggers @ cmd_loggers c).
        handlers (loggers (register_command_loggers c i w) (getLogger n)) =
          [IOHandler (io_ref i) (Some IOFormatter)]
        \<and> level (loggers (register_command_loggers c i w) (getLogger n)) =
          (if is_debug i then DEBUG
           else if is_very_verbose i \<or> is_verbose i then INFO
           else if startswith n ''poetry.core.masonry.builders'' then INFO
           else WARNING)"
  proof
    fix n assume n: "n \<in> set (base_loggers @ cmd_loggers c)"
    then have "getLogger n \<in> getLogger ` set (base_loggers @ cmd_loggers c)" by (rule imageI)
    then have "loggers (register_command_loggers c i w) (getLogger n) =
        \<lparr>handlers = [IOHandler (io_ref i) (Some IOFormatter)],
         level = logger_level i (getLogger n)\<rparr>"
      by (simp only: register_command_loggers_logger [OF assms] if_True)
    then show "handlers (loggers (register_command_loggers c i w) (getLogger n)) =
          [IOHandler (io_ref i) (Some IOFormatter)]
        \<and> level (loggers (register_command_loggers c i w) (getLogger n)) =
          (if is_debug i then DEBUG
           else if is_very_verbose i \<or> is_verbose i then INFO
           else if startswith n ''poetry.core.masonry.builders'' then INFO
           else WARNING)"
      by (simp add: logger_level_cases startswith_getLogger WARNING_def INFO_def DEBUG_def)
  qed
  have b: "\<forall>k. k \<notin> getLogger ` set (base_loggers @ cmd_loggers c) \<longrightarrow>
          loggers (register_command_loggers c i w) k = loggers w k"
    by (simp only: register_command_loggers_logger [OF assms] if_False) simp
  have c: "register_command_loggers c i w = w\<lparr>loggers := loggers (register_command_loggers c i w)\<rparr>"
    by (simp add: register_command_loggers_def Let_def)
  from a b c show ?thesis
    by (simp add: base_loggers_def WARNING_def INFO_def DEBUG_def)
qed

theorem command_loggers_configured_witness:
  "is_Command install_command
   \<and> ''poetry.packages.locker'' \<in> set (base_loggers @ cmd_loggers install_command)
   \<and> ''poetry.core.masonry.builders.builder'' \<in> set (base_loggers @ cmd_loggers install_command)
   \<and> handlers (loggers (register_command_loggers install_command (sample_io []) sample_world)
        (getLogger ''poetry.packages.locker'')) = [IOHandler 0 (Some IOFormatter)]
   \<and> level (loggers (register_command_loggers install_command (sample_io []) sample_world)
        (getLogger ''poetry.packages.locker'')) = 30
   \<and> level (loggers (register_command_loggers install_command (sample_io []) sample_world)
        (getLogger ''poetry.core.masonry.builders.builder'')) = 20
   \<and> level (loggers (register_command_loggers install_command
        ((sample_io [])\<lparr>is_debug := True, is_very_verbose := True, is_verbose := True\<rparr>)
        sample_world) (getLogger ''poetry.packages.locker'')) = 10"
proof -
  have c: "is_Command install_command" by (simp add: install_command_def)
  have m1: "''poetry.packages.locker'' \<in> set (base_loggers @ cmd_loggers install_command)"
    and m2: "''poetry.core.masonry.builders.builder''
      \<in> set (base_loggers @ cmd_loggers install_command)"
    by (simp_all add: base_loggers_def install_command_def)
  note th = command_loggers_configured [OF c, THEN conjunct1]
  from bspec [OF th [of "sample_io []" sample_world] m1]
  have "handlers (loggers (register_command_loggers install_command (sample_io []) sample_world)
        (getLogger ''poetry.packages.locker'')) = [IOHandler 0 (Some IOFormatter)]
   \<and> level (loggers (register_command_loggers install_command (sample_io []) sample_world)
        (getLogger ''poetry.packages.locker'')) = 30"
    by (simp add: sample_io_def startswith_def WARNING_def)
  moreover from bspec [OF th [of "sample_io []" sample_world] m2]
  have "level (loggers (register_command_loggers install_command (sample_io []) sample_world)
        (getLogger ''poetry.core.masonry.builders.builder'')) = 20"
    by (simp add: sample_io_def startswith_def INFO_def)
  moreover from bspec [OF th [of "(sample_io [])\<lparr>is_debug := True, is_very_verbose := True,
      is_verbose := True\<rparr>" sample_world] m1]
  have "level (loggers (register_command_loggers install_command
        ((sample_io [])\<lparr>is_debug := True, is_very_verbose := True, is_verbose := True\<rparr>)
        sample_world) (getLogger ''poetry.packages.locker'')) = 10"
    by (simp add: DEBUG_def)
  ultimately show ?thesis using c m1 m2 by simp
qed

subsection \<open>Running the listeners again\<close>

lemma configure_env_attached:
  "cmd_env c \<noteq> None \<Longrightarrow> configure_env sv (c, i, w) = Inr (c, i, w)"
  by (simp add: configure_env_def)

lemma configure_installer_attached:
  "cmd_installer c \<noteq> None \<Longrightarrow> configure_installer sv (c, i, w) = Inr (c, i, w)"
  by (simp add: configure_installer_def)

lemma configure_env_result:
  assumes "configure_env sv (c, i, w) = Inr (c1, i1, w1)"
  shows "same_shape (c1, i1) (c, i)"
    and "is_EnvCommand c \<Longrightarrow> cmd_env c1 \<noteq> None"
    and "cmd_installer c1 = cmd_installer c"
    and "loggers w1 = loggers w"
    and "installers_built w1 = installers_built w"
    and "venvs_created w1 =
          venvs_created w + (if is_EnvCommand c \<and> cmd_env c = None then 1 else 0)"
  using assms
  by (auto simp: configure_env_def same_shape_def set_env_def write_line_def
      split: if_splits sum.splits)

lemma configure_installer_result:
  assumes "configure_installer sv (c, i, w) = Inr (c1, i1, w1)"
  shows "same_shape (c1, i1) (c, i)"
    and "is_InstallerCommand c \<Longrightarrow> cmd_installer c1 \<noteq> None"
    and "cmd_env c1 = cmd_env c"
    and "loggers w1 = loggers w"
    and "venvs_created w1 = venvs_created w"
    and "installers_built w1 =
          installers_built w + (if is_InstallerCommand c \<and> cmd_installer c = None then 1 else 0)"
  using assms
  by (auto simp: configure_installer_def build_installer_def same_shape_def set_installer_def
      Let_def split: if_splits sum.splits option.splits prod.splits)

lemma register_command_loggers_keeps:
  "heap (register_command_loggers c i w) = heap w"
  "allocated (register_command_loggers c i w) = allocated w"
  "discoveries (register_command_loggers c i w) = discoveries w"
  "activations (register_command_loggers c i w) = activations w"
  "venvs_created (register_command_loggers c i w) = venvs_created w"
  "installers_built (register_command_loggers c i w) = installers_built w"
  by (simp_all add: register_command_loggers_def Let_def)

lemma register_command_loggers_again:
  assumes "same_shape (c', i') (c, i)" and "loggers w' = loggers (register_command_loggers c i w)"
  shows "register_command_loggers c' i' w' = w'"
proof (cases "is_Command c")
  case False
  with assms(1) show ?thesis
    by (simp add: register_command_loggers_def same_shape_def)
next
  case True
  with assms(1) have c': "is_Command c'" by (simp add: same_shape_def)
  have "loggers (register_command_loggers c' i' w') k = loggers w' k" for k
    using assms(1)
    by (simp add: register_command_loggers_logger [OF c'] assms(2)
        register_command_loggers_logger [OF True] same_shape_def logger_level_def)
  then have "loggers (register_command_loggers c' i' w') = loggers w'" by (rule ext)
  moreover have "register_command_loggers c' i' w' =
      w'\<lparr>loggers := loggers (register_command_loggers c' i' w')\<rparr>"
    by (simp add: register_command_loggers_def Let_def)
  ultimately show ?thesis by simp
qed

lemma same_shape_trans: "same_shape a b \<Longrightarrow> same_shape b c \<Longrightarrow> same_shape a c"
  by (simp add: same_shape_def)

lemma dispatch_command_result:
  assumes "dispatch_command sv (c, i, w) = Inr (c1, i1, w1)"
  shows "same_shape (c1, i1) (c, i)"
    and "is_EnvCommand c \<Longrightarrow> cmd_env c1 \<noteq> None"
    and "is_InstallerCommand c \<Longrightarrow> cmd_installer c1 \<noteq> None"
    and "loggers w1 = loggers (register_command_loggers c i w)"
    and "venvs_created w1 =
          venvs_created w + (if is_EnvCommand c \<and> cmd_env c = None then 1 else 0)"
    and "installers_built w1 =
          installers_built w + (if is_InstallerCommand c \<and> cmd_installer c = None then 1 else 0)"
proof -
  from assms obtain c2 i2 w2 where
    e: "configure_env sv (c, i, register_command_loggers c i w) = Inr (c2, i2, w2)" and
    n: "configure_installer sv (c2, i2, w2) = Inr (c1, i1, w1)"
    by (auto simp: dispatch_command_def split: sum.splits)
  note re = configure_env_result [OF e]
  note rn = configure_installer_result [OF n]
  show "same_shape (c1, i1) (c, i)" by (rule same_shape_trans [OF rn(1) re(1)])
  show "is_EnvCommand c \<Longrightarrow> cmd_env c1 \<noteq> None" using re(2) rn(3) by simp
  have "is_InstallerCommand c2 = is_InstallerCommand c" using re(1) by (simp add: same_shape_def)
  then show "is_InstallerCommand c \<Longrightarrow> cmd_installer c1 \<noteq> None" using rn(2) by simp
  show "loggers w1 = loggers (register_command_loggers c i w)" using re(4) rn(4) by simp
  show "venvs_created w1 =
          venvs_created w + (if is_EnvCommand c \<and> cmd_env c = None then 1 else 0)"
    using re(6) rn(5) by (simp add: register_command_loggers_keeps)
  show "installers_built w1 =
          installers_built w + (if is_InstallerCommand c \<and> cmd_installer c = None then 1 else 0)"
    using re(5) re(3) rn(6) \<open>is_InstallerCommand c2 = is_InstallerCommand c\<close>
    by (simp add: register_command_loggers_keeps)
qed

lemma dispatch_command_again:
  assumes "dispatch_command sv (c, i, w) = Inr (c1, i1, w1)"
  shows "dispatch_command sv (c1, i1, w1) = Inr (c1, i1, w1)"
proof -
  note r = dispatch_command_result [OF assms]
  have reg: "register_command_loggers c1 i1 w1 = w1"
    by (rule register_command_loggers_again [OF r(1) r(4)])
  have sh: "is_EnvCommand c1 = is_EnvCommand c" "is_InstallerCommand c1 = is_InstallerCommand c"
    using r(1) by (simp_all add: same_shape_def)
  have env: "configure_env sv (c1, i1, w1) = Inr (c1, i1, w1)"
  proof (cases "is_EnvCommand c")
    case True
    then show ?thesis using r(2) by (simp add: configure_env_attached)
  next
    case False
    then show ?thesis using sh by (simp add: configure_env_skip)
  qed
  have inst: "configure_installer sv (c1, i1, w1) = Inr (c1, i1, w1)"
  proof (cases "is_InstallerCommand c")
    case True
    then show ?thesis using r(3) by (simp add: configure_installer_attached)
  next
    case False
    then show ?thesis using sh by (simp add: configure_installer_skip)
  qed
  show ?thesis by (simp add: dispatch_command_def reg env inst)
qed

lemma dispatch_times_again:
  assumes "dispatch_command sv (c, i, w) = Inr s1"
  shows "dispatch_times k sv s1 = Inr s1"
proof (induction k)
  case 0
  show ?case by simp
next
  case (Suc k)
  obtain c1 i1 w1 where s1: "s1 = (c1, i1, w1)" by (cases s1)
  from dispatch_command_again [OF assms [unfolded s1]] Suc show ?case
    by (simp add: s1)
qed

lemma sample_dispatch:
  "dispatch_command sample_services (install_command, sample_io [], sample_world) =
     Inr (set_installer (set_env install_command 7)
            \<lparr>inst_io = 0, inst_env = Some 7, inst_package = 3, inst_locker = 4, inst_pool = 6,
             inst_config = 5, inst_use_executor = PBool False\<rparr>,
          sample_io [],
          (register_command_loggers install_command (sample_io []) sample_world)
            \<lparr>venvs_created := 1, installers_built := 1\<rparr>)"
  by (simp add: dispatch_command_def configure_env_def configure_installer_def
      build_installer_def sample_services_def install_command_def set_env_def set_installer_def
      sample_io_def register_command_loggers_keeps sample_world_def sample_poetry_def
      register_command_loggers_def Let_def)

text \<open>
  C6. The environment resolution on a command that has an environment, and the installer wiring
  on a command that has an installer, return the state they were given: nothing is attached and
  no collaborator is called. When the pipeline returns normally on a command, an
  \<^verbatim>\<open>EnvCommand\<close> has an environment and an \<^verbatim>\<open>InstallerCommand\<close> has an installer afterwards;
  \<^verbatim>\<open>create_venv\<close> was called once if the command was an \<^verbatim>\<open>EnvCommand\<close> without an environment
  and not at all otherwise, and likewise for the constructor of the installer; and any number
  of further runs of the pipeline return normally and leave the command, the \<^verbatim>\<open>IO\<close> object and
  the state exactly as the first run left them.
\<close>

theorem listeners_idempotent:
  "(cmd_env c \<noteq> None \<longrightarrow> configure_env sv (c, i, w) = Inr (c, i, w))
   \<and> (cmd_installer c \<noteq> None \<longrightarrow> configure_installer sv (c, i, w) = Inr (c, i, w))
   \<and> (\<forall>c1 i1 w1. dispatch_command sv (c, i, w) = Inr (c1, i1, w1) \<longrightarrow>
        (is_EnvCommand c \<longrightarrow> cmd_env c1 \<noteq> None)
        \<and> (is_InstallerCommand c \<longrightarrow> cmd_installer c1 \<noteq> None)
        \<and> venvs_created w1 =
            venvs_created w + (if is_EnvCommand c \<and> cmd_env c = None then 1 else 0)
        \<and> installers_built w1 =
            installers_built w + (if is_InstallerCommand c \<and> cmd_installer c = None then 1 else 0)
        \<and> (\<forall>k. dispatch_times k sv (c1, i1, w1) = Inr (c1, i1, w1))
        \<and> (\<forall>k. dispatch_times (Suc k) sv (c, i, w) = Inr (c1, i1, w1)))"
proof -
  have "(is_EnvCommand c \<longrightarrow> cmd_env c1 \<noteq> None)
        \<and> (is_InstallerCommand c \<longrightarrow> cmd_installer c1 \<noteq> None)
        \<and> venvs_created w1 =
            venvs_created w + (if is_EnvCommand c \<and> cmd_env c = None then 1 else 0)
        \<and> installers_built w1 =
            installers_built w + (if is_InstallerCommand c \<and> cmd_installer c = None then 1 else 0)
        \<and> (\<forall>k. dispatch_times k sv (c1, i1, w1) = Inr (c1, i1, w1))
        \<and> (\<forall>k. dispatch_times (Suc k) sv (c, i, w) = Inr (c1, i1, w1))"
    if d: "dispatch_command sv (c, i, w) = Inr (c1, i1, w1)" for c1 i1 w1
  proof -
    note r = dispatch_command_result [OF d]
    have again: "dispatch_times k sv (c1, i1, w1) = Inr (c1, i1, w1)" for k
      by (rule dispatch_times_again [OF d])
    have "dispatch_times (Suc k) sv (c, i, w) = Inr (c1, i1, w1)" for k
      by (simp add: d again)
    with r(2,3,5,6) again show ?thesis by blast
  qed
  then show ?thesis
    using configure_env_attached [of c sv i w] configure_installer_attached [of c sv i w]
    by blast
qed

theorem listeners_idempotent_witness:
  "dispatch_command sample_services (install_command, sample_io [], sample_world) =
     Inr (set_installer (set_env install_command 7)
            \<lparr>inst_io = 0, inst_env = Some 7, inst_package = 3, inst_locker = 4, inst_pool = 6,
             inst_config = 5, inst_use_executor = PBool False\<rparr>,
          sample_io [],
          (register_command_loggers install_command (sample_io []) sample_world)
            \<lparr>venvs_created := 1, installers_built := 1\<rparr>)
   \<and> dispatch_times 3 sample_services (install_command, sample_io [], sample_world) =
     Inr (set_installer (set_env install_command 7)
            \<lparr>inst_io = 0, inst_env = Some 7, inst_package = 3, inst_locker = 4, inst_pool = 6,
             inst_config = 5, inst_use_executor = PBool False\<rparr>,
          sample_io [],
          (register_command_loggers install_command (sample_io []) sample_world)
            \<lparr>venvs_created := 1, installers_built := 1\<rparr>)
   \<and> is_EnvCommand install_command \<and> is_InstallerCommand install_command
   \<and> cmd_env (set_installer (set_env install_command 7)
            \<lparr>inst_io = 0, inst_env = Some 7, inst_package = 3, inst_locker = 4, inst_pool = 6,
             inst_config = 5, inst_use_executor = PBool False\<rparr>) = Some 7
   \<and> cmd_env (set_env install_command 7) \<noteq> None
   \<and> configure_env sample_services (set_env install_command 7, sample_io [], sample_world) =
       Inr (set_env install_command 7, sample_io [], sample_world)"
proof -
  note th = listeners_idempotent [of install_command sample_services "sample_io []" sample_world]
  from th [THEN conjunct2, THEN conjunct2, THEN spec, THEN spec, THEN spec, THEN mp,
      OF sample_dispatch]
  have "dispatch_times (Suc 2) sample_services (install_command, sample_io [], sample_world) =
     Inr (set_installer (set_env install_command 7)
            \<lparr>inst_io = 0, inst_env = Some 7, inst_package = 3, inst_locker = 4, inst_pool = 6,
             inst_config = 5, inst_use_executor = PBool False\<rparr>,
          sample_io [],
          (register_command_loggers install_command (sample_io []) sample_world)
            \<lparr>venvs_created := 1, installers_built := 1\<rparr>)"
    by blast
  moreover have "Suc 2 = 3" by simp
  moreover have ne: "cmd_env (set_env install_command 7) \<noteq> None"
    by (simp add: set_env_def)
  moreover from listeners_idempotent [of "set_env install_command 7" sample_services
      "sample_io []" sample_world, THEN conjunct1] ne
  have "configure_env sample_services (set_env install_command 7, sample_io [], sample_world) =
       Inr (set_env install_command 7, sample_io [], sample_world)"
    by blast
  ultimately show ?thesis
    using sample_dispatch
    by (simp add: install_command_def set_env_def set_installer_def)
qed

subsection \<open>What is declared and set for the supplied options, and for no other\<close>

lemma supplied_options_core:
  assumes "rebind_input lib app i = Inr i'"
    and "first_argument lib (fst (bind lib (io_input i) (app_definition app))) = Some ''run''"
    and "distinct (map fst (options (fst (bind lib (io_input i) (app_definition app)))))"
  defines "opts \<equiv> options (fst (bind lib (io_input i) (app_definition app)))"
  defines "second \<equiv> fst (bind lib
      ((new_RunArgvInput (name_or_empty app #
          tokens (fst (bind lib (io_input i) (app_definition app)))))
        \<lparr>parameter_options := parameter_options (io_input i')\<rparr>) (app_definition app))"
  shows
    "(\<forall>(n, v) \<in> set opts. truthy v \<longrightarrow>
        ''--'' @ n \<in> set (parameter_options (io_input i')) \<and>
        map_of (options (io_input i')) n = Some v)
     \<and> (\<forall>(n, v) \<in> set opts. \<not> truthy v \<longrightarrow>
        ''--'' @ n \<notin> set (parameter_options (io_input i')) \<and>
        map_of (options (io_input i')) n = map_of (options second) n)
     \<and> filter (\<lambda>p. take 2 p = ''--'') (parameter_options (io_input i')) =
        map (\<lambda>(n, v). ''--'' @ n) (snapshot opts)
     \<and> options (io_input i') =
        foldl (\<lambda>os (n, v). dict_set os n v) (options second) (snapshot opts)
     \<and> snapshot opts = filter (\<lambda>(n, v). truthy v) opts"
proof -
  let ?d = "app_definition app"
  let ?inp = "fst (bind lib (io_input i) ?d)"
  let ?ri = "io_input i'"
  have po: "parameter_options ?ri =
      concat (map (\<lambda>(n, v). declared_forms ?d n) (snapshot opts))"
    unfolding opts_def by (rule rebind_input_parameter_options [OF assms(1,2)])
  have found: "\<forall>(n, v) \<in> set (snapshot opts). \<exists>opt. find (\<lambda>opt. opt_name opt = n) ?d = Some opt"
    using declare_supplied_found [OF rebind_input_run(2) [OF assms(1,2)]]
    by (auto simp: snapshot_iff opts_def)
  have long: "filter (\<lambda>p. take 2 p = ''--'') (parameter_options ?ri) =
      map (\<lambda>(n, v). ''--'' @ n) (snapshot opts)"
    unfolding po by (rule long_forms_of_declared [OF found])
  have ri: "?ri = reapply_values opts second"
    using rebind_input_run(1) [OF assms(1,2)] po
    by (simp add: second_def opts_def)
  have os: "options ?ri = foldl (\<lambda>os (n, v). dict_set os n v) (options second) (snapshot opts)"
    by (subst ri) (simp add: reapply_values_eq)
  have mo: "map_of (options ?ri) = map_of (options second) ++ map_of (rev (snapshot opts))"
    unfolding os by (rule map_of_foldl_dict_set)
  have dist: "distinct (map fst opts)" using assms(3) by (simp add: opts_def)
  have in_long: "''--'' @ n \<in> set (parameter_options ?ri) \<longleftrightarrow> n \<in> fst ` set (snapshot opts)" for n
  proof -
    have "''--'' @ n \<in> set (parameter_options ?ri) \<longleftrightarrow>
        ''--'' @ n \<in> set (filter (\<lambda>p. take 2 p = ''--'') (parameter_options ?ri))"
      by simp
    also have "\<dots> \<longleftrightarrow> n \<in> fst ` set (snapshot opts)"
      unfolding long by force
    finally show ?thesis .
  qed
  have truthy_part: "\<forall>(n, v) \<in> set opts. truthy v \<longrightarrow>
        ''--'' @ n \<in> set (parameter_options ?ri) \<and> map_of (options ?ri) n = Some v"
  proof (intro ballI, clarify)
    fix n v assume nv: "(n, v) \<in> set opts" and t: "truthy v"
    have "(n, v) \<in> set (snapshot opts)" using nv t by (simp add: snapshot_iff)
    then have "n \<in> fst ` set (snapshot opts)" by force
    then have "''--'' @ n \<in> set (parameter_options ?ri)" by (simp only: in_long)
    moreover have "map_of (options ?ri) n = Some v"
      unfolding mo using map_of_rev_snapshot_truthy [OF dist nv t] by simp
    ultimately show "''--'' @ n \<in> set (parameter_options ?ri) \<and> map_of (options ?ri) n = Some v"
      by simp
  qed
  have falsy_part: "\<forall>(n, v) \<in> set opts. \<not> truthy v \<longrightarrow>
        ''--'' @ n \<notin> set (parameter_options ?ri) \<and>
        map_of (options ?ri) n = map_of (options second) n"
  proof (intro ballI, clarify)
    fix n v assume nv: "(n, v) \<in> set opts" and t: "\<not> truthy v"
    have none: "map_of (rev (snapshot opts)) n = None"
      by (rule map_of_rev_snapshot_falsy [OF dist nv t])
    then have "n \<notin> fst ` set (snapshot opts)"
      by (simp add: map_of_eq_None_iff)
    then have "''--'' @ n \<notin> set (parameter_options ?ri)" by (simp only: in_long not_False_eq_True)
    moreover have "map_of (options ?ri) n = map_of (options second) n"
      unfolding mo using none by (simp add: map_add_def)
    ultimately show "''--'' @ n \<notin> set (parameter_options ?ri) \<and>
        map_of (options ?ri) n = map_of (options second) n"
      by simp
  qed
  from truthy_part falsy_part long os show ?thesis
    by (simp add: snapshot_def)
qed

lemma declared_forms_unfold:
  "declared_forms d m =
     (case find (\<lambda>opt. opt_name opt = m) d of
        None \<Rightarrow> []
      | Some opt \<Rightarrow>
          (''--'' @ opt_name opt) #
          (case opt_shortcut opt of None \<Rightarrow> [] | Some sc \<Rightarrow> shortcut_options sc))"
  by (simp add: declared_forms_def option_forms_def split: option.splits)

lemma disjoint_from_concat:
  assumes "\<forall>(m, u) \<in> set kvs. set (declared_forms d m) \<inter> X = {}"
  shows "X \<inter> set (concat (map (\<lambda>(n, v). declared_forms d n) kvs)) = {}"
  using assms by (induction kvs) auto

text \<open>
  C3. Let \<^verbatim>\<open>_configure_io\<close> take the pass-through branch and reach the call of the base class,
  and let \<^verbatim>\<open>opts\<close> be the options of the original input after the first bind (a dictionary, so
  its keys are distinct). The parameter options declared on the rebuilt input are exactly, and
  in order, the forms (the long form, then the aliases of the shortcut) of the options of
  \<^verbatim>\<open>opts\<close> with a truthy value: nothing is declared for any other option. Every option of
  \<^verbatim>\<open>opts\<close> with a truthy value has all its forms among the parameter options of the rebuilt
  input and has that value as its value there. Every option of \<^verbatim>\<open>opts\<close> with a falsy value has
  no long form among the parameter options, none of its forms is among them unless it is also a
  form of an option with a truthy value, and its value on the rebuilt input is what the second
  bind left. The long forms among the parameter options are exactly those of the options with
  a truthy value, and the options of the rebuilt input are those of the second bind with
  exactly the truthy values set.
\<close>

theorem supplied_options_propagated:
  assumes "rebind_input lib app i = Inr i'"
    and "first_argument lib (fst (bind lib (io_input i) (app_definition app))) = Some ''run''"
    and "distinct (map fst (options (fst (bind lib (io_input i) (app_definition app)))))"
  defines "opts \<equiv> options (fst (bind lib (io_input i) (app_definition app)))"
  defines "declared \<equiv>
      concat (map (\<lambda>(n, v). declared_forms (app_definition app) n) (snapshot opts))"
  defines "second \<equiv> fst (bind lib
      ((new_RunArgvInput (name_or_empty app #
          tokens (fst (bind lib (io_input i) (app_definition app)))))
        \<lparr>parameter_options := declared\<rparr>) (app_definition app))"
  shows
    "parameter_options (io_input i') = declared
     \<and> (\<forall>(n, v) \<in> set opts. truthy v \<longrightarrow>
        set (declared_forms (app_definition app) n) \<subseteq> set (parameter_options (io_input i')) \<and>
        ''--'' @ n \<in> set (parameter_options (io_input i')) \<and>
        map_of (options (io_input i')) n = Some v)
     \<and> (\<forall>(n, v) \<in> set opts. \<not> truthy v \<longrightarrow>
        ''--'' @ n \<notin> set (parameter_options (io_input i')) \<and>
        map_of (options (io_input i')) n = map_of (options second) n \<and>
        ((\<forall>(m, u) \<in> set (snapshot opts).
            set (declared_forms (app_definition app) m) \<inter>
            set (declared_forms (app_definition app) n) = {}) \<longrightarrow>
         set (declared_forms (app_definition app) n) \<inter>
         set (parameter_options (io_input i')) = {}))
     \<and> filter (\<lambda>p. take 2 p = ''--'') (parameter_options (io_input i')) =
        map (\<lambda>(n, v). ''--'' @ n) (snapshot opts)
     \<and> options (io_input i') =
        foldl (\<lambda>os (n, v). dict_set os n v) (options second) (snapshot opts)
     \<and> snapshot opts = filter (\<lambda>(n, v). truthy v) opts
     \<and> (\<forall>d m. declared_forms d m =
          (case find (\<lambda>opt. opt_name opt = m) d of
             None \<Rightarrow> []
           | Some opt \<Rightarrow>
               (''--'' @ opt_name opt) #
               (case opt_shortcut opt of None \<Rightarrow> [] | Some sc \<Rightarrow> shortcut_options sc)))"
proof -
  let ?d = "app_definition app"
  let ?ri = "io_input i'"
  have po: "parameter_options ?ri = declared"
    unfolding declared_def opts_def by (rule rebind_input_parameter_options [OF assms(1,2)])
  note core = supplied_options_core [OF assms(1,2,3), unfolded po, folded opts_def declared_def,
      folded second_def]
  have t: "\<forall>(n, v) \<in> set opts. truthy v \<longrightarrow>
        set (declared_forms ?d n) \<subseteq> set (parameter_options ?ri) \<and>
        ''--'' @ n \<in> set (parameter_options ?ri) \<and>
        map_of (options ?ri) n = Some v"
  proof (intro ballI, clarify)
    fix n v assume nv: "(n, v) \<in> set opts" and tv: "truthy v"
    have "set (declared_forms ?d n) \<subseteq> set (parameter_options ?ri)"
      unfolding po declared_def by (rule declared_forms_in_concat [OF nv tv])
    moreover from bspec [OF core [THEN conjunct1] nv] tv
    have "''--'' @ n \<in> set declared \<and> map_of (options ?ri) n = Some v" by simp
    ultimately show "set (declared_forms ?d n) \<subseteq> set (parameter_options ?ri) \<and>
        ''--'' @ n \<in> set (parameter_options ?ri) \<and> map_of (options ?ri) n = Some v"
      by (simp add: po)
  qed
  have f: "\<forall>(n, v) \<in> set opts. \<not> truthy v \<longrightarrow>
        ''--'' @ n \<notin> set (parameter_options ?ri) \<and>
        map_of (options ?ri) n = map_of (options second) n \<and>
        ((\<forall>(m, u) \<in> set (snapshot opts).
            set (declared_forms ?d m) \<inter> set (declared_forms ?d n) = {}) \<longrightarrow>
         set (declared_forms ?d n) \<inter> set (parameter_options ?ri) = {})"
  proof (intro ballI, clarify)
    fix n v assume nv: "(n, v) \<in> set opts" and fv: "\<not> truthy v"
    from bspec [OF core [THEN conjunct2, THEN conjunct1] nv] fv
    have a: "''--'' @ n \<notin> set declared \<and> map_of (options ?ri) n = map_of (options second) n"
      by simp
    have b: "set (declared_forms ?d n) \<inter> set (parameter_options ?ri) = {}"
      if "\<forall>(m, u) \<in> set (snapshot opts).
            set (declared_forms ?d m) \<inter> set (declared_forms ?d n) = {}"
      unfolding po declared_def by (rule disjoint_from_concat [OF that])
    from a b show "''--'' @ n \<notin> set (parameter_options ?ri) \<and>
        map_of (options ?ri) n = map_of (options second) n \<and>
        ((\<forall>(m, u) \<in> set (snapshot opts).
            set (declared_forms ?d m) \<inter> set (declared_forms ?d n) = {}) \<longrightarrow>
         set (declared_forms ?d n) \<inter> set (parameter_options ?ri) = {})"
      by (simp add: po)
  qed
  have rest: "filter (\<lambda>p. take 2 p = ''--'') (parameter_options ?ri) =
        map (\<lambda>(n, v). ''--'' @ n) (snapshot opts)
     \<and> options ?ri = foldl (\<lambda>os (n, v). dict_set os n v) (options second) (snapshot opts)
     \<and> snapshot opts = filter (\<lambda>(n, v). truthy v) opts"
    using core [THEN conjunct2, THEN conjunct2] by (simp add: po)
  have unf: "\<forall>d m. declared_forms d m =
          (case find (\<lambda>opt. opt_name opt = m) d of
             None \<Rightarrow> []
           | Some opt \<Rightarrow>
               (''--'' @ opt_name opt) #
               (case opt_shortcut opt of None \<Rightarrow> [] | Some sc \<Rightarrow> shortcut_options sc))"
    by (intro allI) (rule declared_forms_unfold)
  from po t f rest unf show ?thesis by blast
qed

theorem supplied_options_propagated_witness:
  "rebind_input sample_cleo sample_app (sample_io [''-v'', ''run'', ''foo'']) =
     Inr ((sample_io [''-v'', ''run'', ''foo''])
       \<lparr>io_input :=
          \<lparr>input_class = RunArgvInput, tokens = [''-v'', ''run'', ''foo''],
           parameter_options = [''--verbose'', ''-v'', ''-vv'', ''-vvv''],
           bound_definition = Some sample_definition, arguments = [],
           options = [(''verbose'', PBool True), (''quiet'', PBool False),
                      (''no-plugins'', PBool False)]\<rparr>\<rparr>)
   \<and> first_argument sample_cleo
        (fst (bind sample_cleo (io_input (sample_io [''-v'', ''run'', ''foo'']))
           (app_definition sample_app))) = Some ''run''
   \<and> distinct (map fst (options (fst (bind sample_cleo
        (io_input (sample_io [''-v'', ''run'', ''foo''])) (app_definition sample_app)))))
   \<and> options (fst (bind sample_cleo
        (io_input (sample_io [''-v'', ''run'', ''foo''])) (app_definition sample_app))) =
        [(''verbose'', PBool True), (''quiet'', PBool False), (''no-plugins'', PBool False)]
   \<and> [''--verbose'', ''-v'', ''-vv'', ''-vvv''] =
        concat (map (\<lambda>(n, v). declared_forms (app_definition sample_app) n)
          (snapshot [(''verbose'', PBool True), (''quiet'', PBool False),
                     (''no-plugins'', PBool False)]))
   \<and> declared_forms (app_definition sample_app) ''quiet'' = [''--quiet'', ''-q'']
   \<and> set (declared_forms (app_definition sample_app) ''verbose'') \<inter>
       set (declared_forms (app_definition sample_app) ''quiet'') = {}
   \<and> set [''--quiet'', ''-q''] \<inter> set [''--verbose'', ''-v'', ''-vv'', ''-vvv''] = {}
   \<and> map_of [(''verbose'', PBool True), (''quiet'', PBool False), (''no-plugins'', PBool False)]
        ''verbose'' = Some (PBool True)
   \<and> ''--quiet'' \<notin> set [''--verbose'', ''-v'', ''-vv'', ''-vvv'']"
proof -
  have ob: "options (fst (bind sample_cleo
        (io_input (sample_io [''-v'', ''run'', ''foo''])) (app_definition sample_app))) =
        [(''verbose'', PBool True), (''quiet'', PBool False), (''no-plugins'', PBool False)]"
    by (simp add: sample_bind)
  have d: "distinct (map fst (options (fst (bind sample_cleo
        (io_input (sample_io [''-v'', ''run'', ''foo''])) (app_definition sample_app)))))"
    by (simp add: ob)
  have sn: "snapshot [(''verbose'', PBool True), (''quiet'', PBool False),
      (''no-plugins'', PBool False)] = [(''verbose'', PBool True)]"
    by (simp add: snapshot_def)
  have fq: "declared_forms (app_definition sample_app) ''quiet'' = [''--quiet'', ''-q'']"
    by code_simp
  have fv: "declared_forms (app_definition sample_app) ''verbose'' =
      [''--verbose'', ''-v'', ''-vv'', ''-vvv'']"
    by code_simp
  have dj: "set (declared_forms (app_definition sample_app) ''verbose'') \<inter>
       set (declared_forms (app_definition sample_app) ''quiet'') = {}"
    by (simp add: fq fv)
  note th = supplied_options_propagated [OF sample_rebind sample_first_argument d]
  have v: "(''verbose'', PBool True) \<in> set (options (fst (bind sample_cleo
        (io_input (sample_io [''-v'', ''run'', ''foo''])) (app_definition sample_app))))"
    and q: "(''quiet'', PBool False) \<in> set (options (fst (bind sample_cleo
        (io_input (sample_io [''-v'', ''run'', ''foo''])) (app_definition sample_app))))"
    by (simp_all add: ob)
  from th [THEN conjunct1]
  have c1: "[''--verbose'', ''-v'', ''-vv'', ''-vvv''] =
        concat (map (\<lambda>(n, v). declared_forms (app_definition sample_app) n)
          (snapshot [(''verbose'', PBool True), (''quiet'', PBool False),
                     (''no-plugins'', PBool False)]))"
    by (simp add: ob)
  from bspec [OF th [THEN conjunct2, THEN conjunct1] v]
  have c2: "map_of [(''verbose'', PBool True), (''quiet'', PBool False),
      (''no-plugins'', PBool False)] ''verbose'' = Some (PBool True)"
    by simp
  from bspec [OF th [THEN conjunct2, THEN conjunct2, THEN conjunct1] q]
  have c3: "''--quiet'' \<notin> set [''--verbose'', ''-v'', ''-vv'', ''-vvv'']
      \<and> ((\<forall>(m, u) \<in> set (snapshot (options (fst (bind sample_cleo
              (io_input (sample_io [''-v'', ''run'', ''foo''])) (app_definition sample_app))))).
            set (declared_forms (app_definition sample_app) m) \<inter>
            set (declared_forms (app_definition sample_app) ''quiet'') = {}) \<longrightarrow>
         set (declared_forms (app_definition sample_app) ''quiet'') \<inter>
         set [''--verbose'', ''-v'', ''-vv'', ''-vvv''] = {})"
    by simp
  have "\<forall>(m, u) \<in> set (snapshot (options (fst (bind sample_cleo
              (io_input (sample_io [''-v'', ''run'', ''foo''])) (app_definition sample_app))))).
            set (declared_forms (app_definition sample_app) m) \<inter>
            set (declared_forms (app_definition sample_app) ''quiet'') = {}"
    by (simp add: ob sn dj)
  with c3 have c4: "set [''--quiet'', ''-q''] \<inter> set [''--verbose'', ''-v'', ''-vv'', ''-vvv''] = {}"
    by (simp only: fq) 
  from c3 have c5: "''--quiet'' \<notin> set [''--verbose'', ''-v'', ''-vv'', ''-vvv'']" by blast
  from sample_rebind sample_first_argument d ob c1 fq dj c4 c2 c5 show ?thesis
    by (intro conjI)
qed

subsection \<open>The pass-through rewrite: the statement\<close>









subsection \<open>The cached Poetry instance\<close>

lemma poetry_cached:
  "poetry_cache app = Some p \<Longrightarrow> poetry sv (app, w) = ((app, w), Inr p)"
  by (simp add: poetry_def)

lemma poetry_raises:
  "poetry_cache app = None \<Longrightarrow>
   create_poetry sv w (app_io app) (disable_plugins app) = Inl e \<Longrightarrow>
   poetry sv (app, w) = ((app, w), Inl e)"
  by (simp add: poetry_def)

lemma poetry_constructs:
  "poetry_cache app = None \<Longrightarrow>
   create_poetry sv w (app_io app) (disable_plugins app) = Inr obj \<Longrightarrow>
   poetry sv (app, w) =
     ((app\<lparr>poetry_cache := Some (allocated w)\<rparr>,
       w\<lparr>heap := (heap w)(allocated w := obj), allocated := allocated w + 1\<rparr>),
      Inr (allocated w))"
  by (simp add: poetry_def)

lemma poetry_returns_cache:
  assumes "poetry sv (app, w) = ((app1, w1), Inr p)"
  shows "poetry_cache app1 = Some p"
proof (cases "poetry_cache app")
  case (Some q)
  from assms poetry_cached [OF Some, of sv w] show ?thesis using Some by simp
next
  case None
  show ?thesis
  proof (cases "create_poetry sv w (app_io app) (disable_plugins app)")
    case (Inl e)
    from assms poetry_raises [OF None Inl] show ?thesis by simp
  next
    case (Inr obj)
    from assms poetry_constructs [OF None Inr] show ?thesis by auto
  qed
qed

lemma poetry_returns_allocated:
  assumes "poetry sv (app, w) = ((app1, w1), Inr p)"
      and "\<forall>q. poetry_cache app = Some q \<longrightarrow> q < allocated w"
  shows "p < allocated w1"
proof (cases "poetry_cache app")
  case (Some q)
  from assms(1) poetry_cached [OF Some, of sv w] assms(2) show ?thesis using Some by simp
next
  case None
  show ?thesis
  proof (cases "create_poetry sv w (app_io app) (disable_plugins app)")
    case (Inl e)
    from assms(1) poetry_raises [OF None Inl] show ?thesis by simp
  next
    case (Inr obj)
    from assms(1) poetry_constructs [OF None Inr] show ?thesis by auto
  qed
qed

lemma reset_poetry_fields:
  "poetry_cache (reset_poetry app) = None"
  "app_io (reset_poetry app) = app_io app"
  "disable_plugins (reset_poetry app) = disable_plugins app"
  by (simp_all add: reset_poetry_def)

text \<open>
  C9. Let a read of the property \<^verbatim>\<open>poetry\<close> return a reference \<open>p\<close>, from a state in which a cached
  reference, if there is one, was handed out earlier. Then \<open>p\<close> is cached; every later read
  returns \<open>p\<close> and changes nothing, whatever else of the application and of the world has changed,
  as long as the cache still holds \<open>p\<close>, and so does any number of reads one after the other.
  \<^verbatim>\<open>reset_poetry\<close> empties the cache and changes nothing else. The read that follows it calls the
  factory: if the factory returns an object, the read returns a reference that is not \<open>p\<close> (it is
  the next free one), caches it, and stores the new object under it, the object of \<open>p\<close> staying
  what it was; if the factory raises, the read raises and the cache stays empty.
\<close>

theorem poetry_accessor_cached:
  assumes "poetry sv (app, w) = ((app1, w1), Inr p)"
      and "\<forall>q. poetry_cache app = Some q \<longrightarrow> q < allocated w"
  shows "poetry_cache app1 = Some p
    \<and> p < allocated w1
    \<and> poetry sv (app1, w1) = ((app1, w1), Inr p)
    \<and> (\<forall>app2 w2. poetry_cache app2 = Some p \<longrightarrow> poetry sv (app2, w2) = ((app2, w2), Inr p))
    \<and> (\<forall>n. ((\<lambda>s. fst (poetry sv s)) ^^ n) (app1, w1) = (app1, w1))
    \<and> reset_poetry app1 = app1\<lparr>poetry_cache := None\<rparr>
    \<and> (\<forall>obj. create_poetry sv w1 (app_io app1) (disable_plugins app1) = Inr obj \<longrightarrow>
          poetry sv (reset_poetry app1, w1) =
            ((app1\<lparr>poetry_cache := Some (allocated w1)\<rparr>,
              w1\<lparr>heap := (heap w1)(allocated w1 := obj), allocated := allocated w1 + 1\<rparr>),
             Inr (allocated w1))
          \<and> allocated w1 \<noteq> p
          \<and> ((heap w1)(allocated w1 := obj)) p = heap w1 p)
    \<and> (\<forall>e. create_poetry sv w1 (app_io app1) (disable_plugins app1) = Inl e \<longrightarrow>
          poetry sv (reset_poetry app1, w1) = ((reset_poetry app1, w1), Inl e))"
proof -
  have c: "poetry_cache app1 = Some p"
    by (rule poetry_returns_cache [OF assms(1)])
  have lt: "p < allocated w1"
    by (rule poetry_returns_allocated [OF assms])
  have again: "poetry sv (app1, w1) = ((app1, w1), Inr p)"
    by (rule poetry_cached [OF c])
  have any: "\<forall>app2 w2. poetry_cache app2 = Some p \<longrightarrow> poetry sv (app2, w2) = ((app2, w2), Inr p)"
    by (simp add: poetry_cached)
  have many: "\<forall>n. ((\<lambda>s. fst (poetry sv s)) ^^ n) (app1, w1) = (app1, w1)"
  proof
    fix n
    show "((\<lambda>s. fst (poetry sv s)) ^^ n) (app1, w1) = (app1, w1)"
      by (induction n) (simp_all add: again)
  qed
  have r: "reset_poetry app1 = app1\<lparr>poetry_cache := None\<rparr>"
    by (simp add: reset_poetry_def)
  have fresh: "\<forall>obj. create_poetry sv w1 (app_io app1) (disable_plugins app1) = Inr obj \<longrightarrow>
          poetry sv (reset_poetry app1, w1) =
            ((app1\<lparr>poetry_cache := Some (allocated w1)\<rparr>,
              w1\<lparr>heap := (heap w1)(allocated w1 := obj), allocated := allocated w1 + 1\<rparr>),
             Inr (allocated w1))
          \<and> allocated w1 \<noteq> p
          \<and> ((heap w1)(allocated w1 := obj)) p = heap w1 p"
  proof (intro allI impI)
    fix obj
    assume f: "create_poetry sv w1 (app_io app1) (disable_plugins app1) = Inr obj"
    have f': "create_poetry sv w1 (app_io (reset_poetry app1))
                (disable_plugins (reset_poetry app1)) = Inr obj"
      by (simp add: reset_poetry_fields f)
    have "poetry sv (reset_poetry app1, w1) =
            (((reset_poetry app1)\<lparr>poetry_cache := Some (allocated w1)\<rparr>,
              w1\<lparr>heap := (heap w1)(allocated w1 := obj), allocated := allocated w1 + 1\<rparr>),
             Inr (allocated w1))"
      by (rule poetry_constructs [OF reset_poetry_fields(1) f'])
    moreover have "(reset_poetry app1)\<lparr>poetry_cache := Some (allocated w1)\<rparr> =
        app1\<lparr>poetry_cache := Some (allocated w1)\<rparr>"
      by (simp add: reset_poetry_def)
    moreover from lt have "allocated w1 \<noteq> p" by simp
    ultimately show "poetry sv (reset_poetry app1, w1) =
            ((app1\<lparr>poetry_cache := Some (allocated w1)\<rparr>,
              w1\<lparr>heap := (heap w1)(allocated w1 := obj), allocated := allocated w1 + 1\<rparr>),
             Inr (allocated w1))
          \<and> allocated w1 \<noteq> p
          \<and> ((heap w1)(allocated w1 := obj)) p = heap w1 p"
      by simp
  qed
  have fails: "\<forall>e. create_poetry sv w1 (app_io app1) (disable_plugins app1) = Inl e \<longrightarrow>
          poetry sv (reset_poetry app1, w1) = ((reset_poetry app1, w1), Inl e)"
  proof (intro allI impI)
    fix e
    assume f: "create_poetry sv w1 (app_io app1) (disable_plugins app1) = Inl e"
    have f': "create_poetry sv w1 (app_io (reset_poetry app1))
                (disable_plugins (reset_poetry app1)) = Inl e"
      by (simp add: reset_poetry_fields f)
    show "poetry sv (reset_poetry app1, w1) = ((reset_poetry app1, w1), Inl e)"
      by (rule poetry_raises [OF reset_poetry_fields(1) f'])
  qed
  from c lt again any many r fresh fails show ?thesis by (intro conjI)
qed


lemma sample_poetry_read:
  "poetry sample_services (sample_app, sample_world) =
     ((sample_app\<lparr>poetry_cache := Some 0\<rparr>,
       sample_world\<lparr>heap := (heap sample_world)(0 := sample_poetry), allocated := 1\<rparr>),
      Inr 0)"
  by (simp add: poetry_def sample_app_def new_application_def sample_services_def
      sample_world_def)

lemma sample_poetry_cache: "\<forall>q. poetry_cache sample_app = Some q \<longrightarrow> q < allocated sample_world"
  by (simp add: sample_app_def new_application_def)

lemma sample_create_poetry:
  "create_poetry sample_services
     (sample_world\<lparr>heap := (heap sample_world)(0 := sample_poetry), allocated := 1\<rparr>)
     (app_io (sample_app\<lparr>poetry_cache := Some 0\<rparr>))
     (disable_plugins (sample_app\<lparr>poetry_cache := Some 0\<rparr>)) = Inr sample_poetry"
  by (simp add: sample_services_def)

theorem poetry_accessor_cached_witness:
  "poetry sample_services (sample_app, sample_world) =
     ((sample_app\<lparr>poetry_cache := Some 0\<rparr>,
       sample_world\<lparr>heap := (heap sample_world)(0 := sample_poetry), allocated := 1\<rparr>),
      Inr 0)
   \<and> poetry_cache sample_app = None
   \<and> poetry sample_services
       (sample_app\<lparr>poetry_cache := Some 0\<rparr>,
        sample_world\<lparr>heap := (heap sample_world)(0 := sample_poetry), allocated := 1\<rparr>) =
     ((sample_app\<lparr>poetry_cache := Some 0\<rparr>,
       sample_world\<lparr>heap := (heap sample_world)(0 := sample_poetry), allocated := 1\<rparr>),
      Inr 0)
   \<and> poetry sample_services
       (reset_poetry (sample_app\<lparr>poetry_cache := Some 0\<rparr>),
        sample_world\<lparr>heap := (heap sample_world)(0 := sample_poetry), allocated := 1\<rparr>) =
     ((sample_app\<lparr>poetry_cache := Some 1\<rparr>,
       sample_world\<lparr>heap := (heap sample_world)(0 := sample_poetry, 1 := sample_poetry),
         allocated := 2\<rparr>),
      Inr 1)
   \<and> (1 :: nat) \<noteq> 0"
proof -
  note th = poetry_accessor_cached [OF sample_poetry_read sample_poetry_cache]
  have c0: "poetry_cache sample_app = None"
    by (simp add: sample_app_def new_application_def)
  note c1 = th [THEN conjunct2, THEN conjunct2, THEN conjunct1]
  note fr = th [THEN conjunct2, THEN conjunct2, THEN conjunct2, THEN conjunct2, THEN conjunct2,
      THEN conjunct2, THEN conjunct1, THEN spec, THEN mp, OF sample_create_poetry]
  from fr [THEN conjunct1]
  have c2: "poetry sample_services
       (reset_poetry (sample_app\<lparr>poetry_cache := Some 0\<rparr>),
        sample_world\<lparr>heap := (heap sample_world)(0 := sample_poetry), allocated := 1\<rparr>) =
     ((sample_app\<lparr>poetry_cache := Some 1\<rparr>,
       sample_world\<lparr>heap := (heap sample_world)(0 := sample_poetry, 1 := sample_poetry),
         allocated := 2\<rparr>),
      Inr 1)"
    by simp
  from fr [THEN conjunct2, THEN conjunct1]
  have c3: "(1 :: nat) \<noteq> 0" by simp
  from sample_poetry_read c0 c1 c2 c3 show ?thesis by (intro conjI)
qed

subsection \<open>Loading the plugins\<close>

lemma load_plugins_loaded:
  "plugins_loaded app \<Longrightarrow> load_plugins lib sv (app, w) i = ((app, w), None)"
  by (simp add: load_plugins_def)

lemma load_plugins_disabled:
  "\<not> plugins_loaded app \<Longrightarrow> has_parameter_option lib (io_input i) ''--no-plugins'' \<Longrightarrow>
   load_plugins lib sv (app, w) i =
     ((app\<lparr>disable_plugins := PBool True, plugins_loaded := True\<rparr>, w), None)"
  by (simp add: load_plugins_def Let_def truthy.simps)

lemma load_plugins_discovery_raises:
  "\<not> plugins_loaded app \<Longrightarrow> \<not> has_parameter_option lib (io_input i) ''--no-plugins'' \<Longrightarrow>
   manager_load_plugins sv w = Some e \<Longrightarrow>
   load_plugins lib sv (app, w) i =
     ((app\<lparr>disable_plugins := PBool False\<rparr>, w\<lparr>discoveries := discoveries w + 1\<rparr>), Some e)"
  by (simp add: load_plugins_def Let_def truthy.simps)

lemma load_plugins_activation_raises:
  "\<not> plugins_loaded app \<Longrightarrow> \<not> has_parameter_option lib (io_input i) ''--no-plugins'' \<Longrightarrow>
   manager_load_plugins sv w = None \<Longrightarrow>
   manager_activate sv (w\<lparr>discoveries := discoveries w + 1\<rparr>)
     (app\<lparr>disable_plugins := PBool False\<rparr>) = Some e \<Longrightarrow>
   load_plugins lib sv (app, w) i =
     ((app\<lparr>disable_plugins := PBool False\<rparr>,
       w\<lparr>discoveries := discoveries w + 1, activations := activations w + 1\<rparr>), Some e)"
  by (simp add: load_plugins_def Let_def truthy.simps)

lemma load_plugins_done:
  "\<not> plugins_loaded app \<Longrightarrow> \<not> has_parameter_option lib (io_input i) ''--no-plugins'' \<Longrightarrow>
   manager_load_plugins sv w = None \<Longrightarrow>
   manager_activate sv (w\<lparr>discoveries := discoveries w + 1\<rparr>)
     (app\<lparr>disable_plugins := PBool False\<rparr>) = None \<Longrightarrow>
   load_plugins lib sv (app, w) i =
     ((app\<lparr>disable_plugins := PBool False, plugins_loaded := True\<rparr>,
       w\<lparr>discoveries := discoveries w + 1, activations := activations w + 1\<rparr>), None)"
  by (simp add: load_plugins_def Let_def truthy.simps)


lemma run_loaded:
  "plugins_loaded app \<Longrightarrow>
   run lib sv (app, w) i =
     base_run sv (app\<lparr>disable_plugins := parameter_option lib (io_input i) ''--no-plugins''\<rparr>, w) i"
  by (simp add: run_def load_plugins_loaded)

lemma run_disabled:
  "\<not> plugins_loaded app \<Longrightarrow> has_parameter_option lib (io_input i) ''--no-plugins'' \<Longrightarrow>
   run lib sv (app, w) i =
     base_run sv (app\<lparr>disable_plugins := PBool True, plugins_loaded := True\<rparr>, w) i"
  by (simp add: run_def load_plugins_disabled)

lemma run_discovery_raises:
  "\<not> plugins_loaded app \<Longrightarrow> \<not> has_parameter_option lib (io_input i) ''--no-plugins'' \<Longrightarrow>
   manager_load_plugins sv w = Some e \<Longrightarrow>
   run lib sv (app, w) i =
     ((app\<lparr>disable_plugins := PBool False\<rparr>, w\<lparr>discoveries := discoveries w + 1\<rparr>), Inl e)"
  by (simp add: run_def load_plugins_discovery_raises)

lemma run_activation_raises:
  "\<not> plugins_loaded app \<Longrightarrow> \<not> has_parameter_option lib (io_input i) ''--no-plugins'' \<Longrightarrow>
   manager_load_plugins sv w = None \<Longrightarrow>
   manager_activate sv (w\<lparr>discoveries := discoveries w + 1\<rparr>)
     (app\<lparr>disable_plugins := PBool False\<rparr>) = Some e \<Longrightarrow>
   run lib sv (app, w) i =
     ((app\<lparr>disable_plugins := PBool False\<rparr>,
       w\<lparr>discoveries := discoveries w + 1, activations := activations w + 1\<rparr>), Inl e)"
  by (simp add: run_def load_plugins_activation_raises)

lemma run_done:
  "\<not> plugins_loaded app \<Longrightarrow> \<not> has_parameter_option lib (io_input i) ''--no-plugins'' \<Longrightarrow>
   manager_load_plugins sv w = None \<Longrightarrow>
   manager_activate sv (w\<lparr>discoveries := discoveries w + 1\<rparr>)
     (app\<lparr>disable_plugins := PBool False\<rparr>) = None \<Longrightarrow>
   run lib sv (app, w) i =
     base_run sv (app\<lparr>disable_plugins := PBool False, plugins_loaded := True\<rparr>,
       w\<lparr>discoveries := discoveries w + 1, activations := activations w + 1\<rparr>) i"
  by (simp add: run_def load_plugins_done)

lemma base_run_frame:
  assumes "\<forall>s i. plugins_loaded (fst (fst (base_run sv s i))) = plugins_loaded (fst s)
             \<and> discoveries (snd (fst (base_run sv s i))) = discoveries (snd s)
             \<and> activations (snd (fst (base_run sv s i))) = activations (snd s)"
  shows "plugins_loaded (fst (fst (base_run sv (a, v) i))) = plugins_loaded a"
    and "discoveries (snd (fst (base_run sv (a, v) i))) = discoveries v"
    and "activations (snd (fst (base_run sv (a, v) i))) = activations v"
  using assms [THEN spec, THEN spec, of "(a, v)" i] by simp_all

lemma run_loaded_frame:
  assumes "\<forall>s i. plugins_loaded (fst (fst (base_run sv s i))) = plugins_loaded (fst s)
             \<and> discoveries (snd (fst (base_run sv s i))) = discoveries (snd s)
             \<and> activations (snd (fst (base_run sv s i))) = activations (snd s)"
      and "plugins_loaded (fst s)"
  shows "plugins_loaded (fst (fst (run lib sv s i)))
    \<and> discoveries (snd (fst (run lib sv s i))) = discoveries (snd s)
    \<and> activations (snd (fst (run lib sv s i))) = activations (snd s)"
proof -
  obtain app w where s: "s = (app, w)" by (cases s)
  with assms(2) have l: "plugins_loaded app" by simp
  show ?thesis
    unfolding s run_loaded [OF l] by (simp add: base_run_frame [OF assms(1)] l)
qed

lemma runs_loaded_frame:
  assumes "\<forall>s i. plugins_loaded (fst (fst (base_run sv s i))) = plugins_loaded (fst s)
             \<and> discoveries (snd (fst (base_run sv s i))) = discoveries (snd s)
             \<and> activations (snd (fst (base_run sv s i))) = activations (snd s)"
  shows "plugins_loaded (fst s) \<Longrightarrow>
     plugins_loaded (fst (runs lib sv s js))
     \<and> discoveries (snd (runs lib sv s js)) = discoveries (snd s)
     \<and> activations (snd (runs lib sv s js)) = activations (snd s)"
proof (induction js arbitrary: s)
  case Nil
  then show ?case by simp
next
  case (Cons j js)
  note one = run_loaded_frame [OF assms Cons.prems, of lib j]
  from Cons.IH [OF one [THEN conjunct1]] one show ?case by simp
qed

lemma run_first:
  assumes frame: "\<forall>s i. plugins_loaded (fst (fst (base_run sv s i))) = plugins_loaded (fst s)
             \<and> discoveries (snd (fst (base_run sv s i))) = discoveries (snd s)
             \<and> activations (snd (fst (base_run sv s i))) = activations (snd s)"
      and fresh: "\<not> plugins_loaded app"
  shows "discoveries (snd (fst (run lib sv (app, w) i))) =
           discoveries w + (if has_parameter_option lib (io_input i) ''--no-plugins'' then 0 else 1)"
    and "activations (snd (fst (run lib sv (app, w) i))) =
           activations w +
           (if \<not> has_parameter_option lib (io_input i) ''--no-plugins''
               \<and> manager_load_plugins sv w = None then 1 else 0)"
    and "plugins_loaded (fst (fst (run lib sv (app, w) i))) =
           (has_parameter_option lib (io_input i) ''--no-plugins''
            \<or> (manager_load_plugins sv w = None
               \<and> manager_activate sv (w\<lparr>discoveries := discoveries w + 1\<rparr>)
                    (app\<lparr>disable_plugins := PBool False\<rparr>) = None))"
    and "\<not> plugins_loaded (fst (fst (run lib sv (app, w) i))) \<longrightarrow>
           (\<exists>e. snd (run lib sv (app, w) i) = Inl e
              \<and> (manager_load_plugins sv w = Some e
                 \<or> manager_activate sv (w\<lparr>discoveries := discoveries w + 1\<rparr>)
                      (app\<lparr>disable_plugins := PBool False\<rparr>) = Some e))"
proof -
  consider
    (dis) "has_parameter_option lib (io_input i) ''--no-plugins''"
  | (dr) e where "\<not> has_parameter_option lib (io_input i) ''--no-plugins''"
      "manager_load_plugins sv w = Some e"
  | (ar) e where "\<not> has_parameter_option lib (io_input i) ''--no-plugins''"
      "manager_load_plugins sv w = None"
      "manager_activate sv (w\<lparr>discoveries := discoveries w + 1\<rparr>)
         (app\<lparr>disable_plugins := PBool False\<rparr>) = Some e"
  | (ok) "\<not> has_parameter_option lib (io_input i) ''--no-plugins''"
      "manager_load_plugins sv w = None"
      "manager_activate sv (w\<lparr>discoveries := discoveries w + 1\<rparr>)
         (app\<lparr>disable_plugins := PBool False\<rparr>) = None"
    by (cases "manager_load_plugins sv w";
        cases "manager_activate sv (w\<lparr>discoveries := discoveries w + 1\<rparr>)
         (app\<lparr>disable_plugins := PBool False\<rparr>)") auto
  then have "discoveries (snd (fst (run lib sv (app, w) i))) =
           discoveries w + (if has_parameter_option lib (io_input i) ''--no-plugins'' then 0 else 1)
    \<and> activations (snd (fst (run lib sv (app, w) i))) =
           activations w +
           (if \<not> has_parameter_option lib (io_input i) ''--no-plugins''
               \<and> manager_load_plugins sv w = None then 1 else 0)
    \<and> plugins_loaded (fst (fst (run lib sv (app, w) i))) =
           (has_parameter_option lib (io_input i) ''--no-plugins''
            \<or> (manager_load_plugins sv w = None
               \<and> manager_activate sv (w\<lparr>discoveries := discoveries w + 1\<rparr>)
                    (app\<lparr>disable_plugins := PBool False\<rparr>) = None))
    \<and> (\<not> plugins_loaded (fst (fst (run lib sv (app, w) i))) \<longrightarrow>
           (\<exists>e. snd (run lib sv (app, w) i) = Inl e
              \<and> (manager_load_plugins sv w = Some e
                 \<or> manager_activate sv (w\<lparr>discoveries := discoveries w + 1\<rparr>)
                      (app\<lparr>disable_plugins := PBool False\<rparr>) = Some e)))"
  proof cases
    case dis
    show ?thesis
      unfolding run_disabled [OF fresh dis]
      using dis by (simp add: base_run_frame [OF frame])
  next
    case dr
    show ?thesis
      unfolding run_discovery_raises [OF fresh dr]
      using dr fresh by simp
  next
    case ar
    show ?thesis
      unfolding run_activation_raises [OF fresh ar]
      using ar fresh by simp
  next
    case ok
    show ?thesis
      unfolding run_done [OF fresh ok]
      using ok by (simp add: base_run_frame [OF frame])
  qed
  then show
    "discoveries (snd (fst (run lib sv (app, w) i))) =
           discoveries w + (if has_parameter_option lib (io_input i) ''--no-plugins'' then 0 else 1)"
    and "activations (snd (fst (run lib sv (app, w) i))) =
           activations w +
           (if \<not> has_parameter_option lib (io_input i) ''--no-plugins''
               \<and> manager_load_plugins sv w = None then 1 else 0)"
    and "plugins_loaded (fst (fst (run lib sv (app, w) i))) =
           (has_parameter_option lib (io_input i) ''--no-plugins''
            \<or> (manager_load_plugins sv w = None
               \<and> manager_activate sv (w\<lparr>discoveries := discoveries w + 1\<rparr>)
                    (app\<lparr>disable_plugins := PBool False\<rparr>) = None))"
    and "\<not> plugins_loaded (fst (fst (run lib sv (app, w) i))) \<longrightarrow>
           (\<exists>e. snd (run lib sv (app, w) i) = Inl e
              \<and> (manager_load_plugins sv w = Some e
                 \<or> manager_activate sv (w\<lparr>discoveries := discoveries w + 1\<rparr>)
                      (app\<lparr>disable_plugins := PBool False\<rparr>) = Some e))"
    by blast+
qed


text \<open>
  C8, amended. Let the base class's \<^verbatim>\<open>_run\<close> leave \<^verbatim>\<open>_plugins_loaded\<close> alone and not call the plugin
  manager, and let \<^verbatim>\<open>_run\<close> be invoked on an application whose \<^verbatim>\<open>_plugins_loaded\<close> is unset. Then
  that invocation performs discovery if and only if \<^verbatim>\<open>--no-plugins\<close> is absent from the raw input,
  and activation if and only if moreover discovery returned. It sets \<^verbatim>\<open>_plugins_loaded\<close> exactly
  when \<^verbatim>\<open>--no-plugins\<close> is present or discovery and activation both returned. If the flag was
  set, it stays set through any sequence of later invocations and none of them performs
  discovery or activation. If it was not set, discovery or activation raised, \<^verbatim>\<open>_run\<close> raised
  that exception, and the next invocation performs discovery again unless its input has
  \<^verbatim>\<open>--no-plugins\<close>. An invocation that finds the flag set only sets \<^verbatim>\<open>_disable_plugins\<close> and runs
  the base class.
\<close>

theorem plugins_loaded_once:
  assumes frame: "\<forall>s i. plugins_loaded (fst (fst (base_run sv s i))) = plugins_loaded (fst s)
             \<and> discoveries (snd (fst (base_run sv s i))) = discoveries (snd s)
             \<and> activations (snd (fst (base_run sv s i))) = activations (snd s)"
      and fresh: "\<not> plugins_loaded app"
      and first: "run lib sv (app, w) i = ((app1, w1), r)"
  shows "discoveries w1 =
           discoveries w + (if has_parameter_option lib (io_input i) ''--no-plugins'' then 0 else 1)
    \<and> activations w1 =
           activations w +
           (if \<not> has_parameter_option lib (io_input i) ''--no-plugins''
               \<and> manager_load_plugins sv w = None then 1 else 0)
    \<and> plugins_loaded app1 =
           (has_parameter_option lib (io_input i) ''--no-plugins''
            \<or> (manager_load_plugins sv w = None
               \<and> manager_activate sv (w\<lparr>discoveries := discoveries w + 1\<rparr>)
                    (app\<lparr>disable_plugins := PBool False\<rparr>) = None))
    \<and> (plugins_loaded app1 \<longrightarrow>
          (\<forall>js. plugins_loaded (fst (runs lib sv (app1, w1) js))
             \<and> discoveries (snd (runs lib sv (app1, w1) js)) = discoveries w1
             \<and> activations (snd (runs lib sv (app1, w1) js)) = activations w1))
    \<and> (\<not> plugins_loaded app1 \<longrightarrow>
          (\<exists>e. r = Inl e
              \<and> (manager_load_plugins sv w = Some e
                 \<or> manager_activate sv (w\<lparr>discoveries := discoveries w + 1\<rparr>)
                      (app\<lparr>disable_plugins := PBool False\<rparr>) = Some e))
          \<and> (\<forall>j. discoveries (snd (fst (run lib sv (app1, w1) j))) =
                 discoveries w1 +
                 (if has_parameter_option lib (io_input j) ''--no-plugins'' then 0 else 1)))
    \<and> (\<forall>app' w' j. plugins_loaded app' \<longrightarrow>
          run lib sv (app', w') j =
            base_run sv
              (app'\<lparr>disable_plugins := parameter_option lib (io_input j) ''--no-plugins''\<rparr>, w') j)"
proof -
  from first have a1: "app1 = fst (fst (run lib sv (app, w) i))"
    and w1: "w1 = snd (fst (run lib sv (app, w) i))"
    and r: "r = snd (run lib sv (app, w) i)"
    by simp_all
  have A: "discoveries w1 =
           discoveries w + (if has_parameter_option lib (io_input i) ''--no-plugins'' then 0 else 1)"
    unfolding w1 by (rule run_first(1) [OF frame fresh])
  have B: "activations w1 =
           activations w +
           (if \<not> has_parameter_option lib (io_input i) ''--no-plugins''
               \<and> manager_load_plugins sv w = None then 1 else 0)"
    unfolding w1 by (rule run_first(2) [OF frame fresh])
  have C: "plugins_loaded app1 =
           (has_parameter_option lib (io_input i) ''--no-plugins''
            \<or> (manager_load_plugins sv w = None
               \<and> manager_activate sv (w\<lparr>discoveries := discoveries w + 1\<rparr>)
                    (app\<lparr>disable_plugins := PBool False\<rparr>) = None))"
    unfolding a1 by (rule run_first(3) [OF frame fresh])
  have D: "plugins_loaded app1 \<longrightarrow>
          (\<forall>js. plugins_loaded (fst (runs lib sv (app1, w1) js))
             \<and> discoveries (snd (runs lib sv (app1, w1) js)) = discoveries w1
             \<and> activations (snd (runs lib sv (app1, w1) js)) = activations w1)"
  proof (intro impI allI)
    fix js
    assume l: "plugins_loaded app1"
    then have "plugins_loaded (fst (app1, w1))" by simp
    from runs_loaded_frame [OF frame this, of lib js]
    show "plugins_loaded (fst (runs lib sv (app1, w1) js))
             \<and> discoveries (snd (runs lib sv (app1, w1) js)) = discoveries w1
             \<and> activations (snd (runs lib sv (app1, w1) js)) = activations w1"
      by simp
  qed
  have E: "\<not> plugins_loaded app1 \<longrightarrow>
          (\<exists>e. r = Inl e
              \<and> (manager_load_plugins sv w = Some e
                 \<or> manager_activate sv (w\<lparr>discoveries := discoveries w + 1\<rparr>)
                      (app\<lparr>disable_plugins := PBool False\<rparr>) = Some e))
          \<and> (\<forall>j. discoveries (snd (fst (run lib sv (app1, w1) j))) =
                 discoveries w1 +
                 (if has_parameter_option lib (io_input j) ''--no-plugins'' then 0 else 1))"
  proof (intro impI conjI allI)
    assume n: "\<not> plugins_loaded app1"
    from run_first(4) [OF frame fresh, of lib w i] n
    show "\<exists>e. r = Inl e
              \<and> (manager_load_plugins sv w = Some e
                 \<or> manager_activate sv (w\<lparr>discoveries := discoveries w + 1\<rparr>)
                      (app\<lparr>disable_plugins := PBool False\<rparr>) = Some e)"
      unfolding a1 r by blast
    fix j
    show "discoveries (snd (fst (run lib sv (app1, w1) j))) =
                 discoveries w1 +
                 (if has_parameter_option lib (io_input j) ''--no-plugins'' then 0 else 1)"
      by (rule run_first(1) [OF frame n])
  qed
  have F: "\<forall>app' w' j. plugins_loaded app' \<longrightarrow>
          run lib sv (app', w') j =
            base_run sv
              (app'\<lparr>disable_plugins := parameter_option lib (io_input j) ''--no-plugins''\<rparr>, w') j"
    by (simp add: run_loaded)
  from A B C D E F show ?thesis by (intro conjI)
qed


lemma sample_base_run_frame:
  "\<forall>s i. plugins_loaded (fst (fst (base_run sample_services s i))) = plugins_loaded (fst s)
             \<and> discoveries (snd (fst (base_run sample_services s i))) = discoveries (snd s)
             \<and> activations (snd (fst (base_run sample_services s i))) = activations (snd s)"
  by (simp add: sample_services_def)

lemma failing_base_run_frame:
  "\<forall>s i. plugins_loaded (fst (fst (base_run failing_services s i))) = plugins_loaded (fst s)
             \<and> discoveries (snd (fst (base_run failing_services s i))) = discoveries (snd s)
             \<and> activations (snd (fst (base_run failing_services s i))) = activations (snd s)"
  by (simp add: failing_services_def sample_services_def)

lemma sample_app_not_loaded: "\<not> plugins_loaded sample_app"
  by (simp add: sample_app_def new_application_def)

lemma sample_run:
  "run sample_cleo sample_services (sample_app, sample_world) (sample_io [''about'']) =
     ((sample_app\<lparr>plugins_loaded := True\<rparr>,
       sample_world\<lparr>discoveries := 1, activations := 1\<rparr>), Inr 0)"
  by (simp add: run_def load_plugins_def Let_def sample_cleo_def sample_services_def
      sample_app_def new_application_def sample_world_def sample_io_def)

lemma failing_run:
  "run sample_cleo failing_services (sample_app, sample_world) (sample_io [''about'']) =
     ((sample_app, sample_world\<lparr>discoveries := 1, activations := 1\<rparr>),
      Inl (OtherException ''plugin''))"
  by (simp add: run_def load_plugins_def Let_def sample_cleo_def sample_services_def
      failing_services_def sample_app_def new_application_def sample_world_def sample_io_def)

theorem plugins_loaded_once_witness:
  "run sample_cleo sample_services (sample_app, sample_world) (sample_io [''about'']) =
     ((sample_app\<lparr>plugins_loaded := True\<rparr>,
       sample_world\<lparr>discoveries := 1, activations := 1\<rparr>), Inr 0)
   \<and> \<not> plugins_loaded sample_app
   \<and> discoveries sample_world = 0
   \<and> \<not> has_parameter_option sample_cleo (io_input (sample_io [''about''])) ''--no-plugins''
   \<and> discoveries (sample_world\<lparr>discoveries := 1, activations := 1\<rparr>) = 1
   \<and> plugins_loaded (sample_app\<lparr>plugins_loaded := True\<rparr>)
   \<and> discoveries (snd (runs sample_cleo sample_services
        (sample_app\<lparr>plugins_loaded := True\<rparr>,
         sample_world\<lparr>discoveries := 1, activations := 1\<rparr>)
        [sample_io [''about''], sample_io [''install'', ''-q'']])) = 1
   \<and> activations (snd (runs sample_cleo sample_services
        (sample_app\<lparr>plugins_loaded := True\<rparr>,
         sample_world\<lparr>discoveries := 1, activations := 1\<rparr>)
        [sample_io [''about''], sample_io [''install'', ''-q'']])) = 1
   \<and> run sample_cleo failing_services (sample_app, sample_world) (sample_io [''about'']) =
     ((sample_app, sample_world\<lparr>discoveries := 1, activations := 1\<rparr>),
      Inl (OtherException ''plugin''))
   \<and> discoveries (snd (fst (run sample_cleo failing_services
        (sample_app, sample_world\<lparr>discoveries := 1, activations := 1\<rparr>)
        (sample_io [''about''])))) = 2"
proof -
  note ok = plugins_loaded_once [OF sample_base_run_frame sample_app_not_loaded sample_run]
  note ko = plugins_loaded_once [OF failing_base_run_frame sample_app_not_loaded failing_run]
  have w0: "discoveries sample_world = 0"
    by (simp add: sample_world_def)
  have h: "\<not> has_parameter_option sample_cleo (io_input (sample_io [''about''])) ''--no-plugins''"
    by (simp add: sample_cleo_def sample_io_def)
  from ok [THEN conjunct1] w0 h
  have c1: "discoveries (sample_world\<lparr>discoveries := 1, activations := 1\<rparr>) = 1"
    by simp
  have l: "plugins_loaded (sample_app\<lparr>plugins_loaded := True\<rparr>)"
    by simp
  note later = ok [THEN conjunct2, THEN conjunct2, THEN conjunct2, THEN conjunct1, THEN mp, OF l,
      THEN spec, of "[sample_io [''about''], sample_io [''install'', ''-q'']]"]
  from later [THEN conjunct2, THEN conjunct1]
  have c2: "discoveries (snd (runs sample_cleo sample_services
        (sample_app\<lparr>plugins_loaded := True\<rparr>,
         sample_world\<lparr>discoveries := 1, activations := 1\<rparr>)
        [sample_io [''about''], sample_io [''install'', ''-q'']])) = 1"
    by simp
  from later [THEN conjunct2, THEN conjunct2]
  have c3: "activations (snd (runs sample_cleo sample_services
        (sample_app\<lparr>plugins_loaded := True\<rparr>,
         sample_world\<lparr>discoveries := 1, activations := 1\<rparr>)
        [sample_io [''about''], sample_io [''install'', ''-q'']])) = 1"
    by simp
  from ko [THEN conjunct2, THEN conjunct2, THEN conjunct2, THEN conjunct2, THEN conjunct1,
      THEN mp, OF sample_app_not_loaded, THEN conjunct2, THEN spec, of "sample_io [''about'']"] h
  have c4: "discoveries (snd (fst (run sample_cleo failing_services
        (sample_app, sample_world\<lparr>discoveries := 1, activations := 1\<rparr>)
        (sample_io [''about''])))) = 2"
    by simp
  from sample_run sample_app_not_loaded w0 h c1 l c2 c3 failing_run c4
  show ?thesis by (intro conjI)
qed

text \<open>
  C8 as it is worded fails when a plugin raises. With a plugin manager whose \<^verbatim>\<open>activate\<close> raises,
  the first invocation of \<^verbatim>\<open>_run\<close> on \<^verbatim>\<open>poetry about\<close> performs discovery and activation, raises
  and leaves \<^verbatim>\<open>_plugins_loaded\<close> unset; a second invocation in the same process performs both
  again, so that discovery and activation have each been performed twice.
\<close>

theorem plugins_retry_counterexample:
  "\<not> plugins_loaded sample_app
   \<and> \<not> has_parameter_option sample_cleo (io_input (sample_io [''about''])) ''--no-plugins''
   \<and> discoveries sample_world = 0
   \<and> activations sample_world = 0
   \<and> snd (run sample_cleo failing_services (sample_app, sample_world) (sample_io [''about''])) =
       Inl (OtherException ''plugin'')
   \<and> \<not> plugins_loaded (fst (fst
        (run sample_cleo failing_services (sample_app, sample_world) (sample_io [''about'']))))
   \<and> discoveries (snd (fst
        (run sample_cleo failing_services (sample_app, sample_world) (sample_io [''about''])))) = 1
   \<and> discoveries (snd (runs sample_cleo failing_services (sample_app, sample_world)
        [sample_io [''about''], sample_io [''about'']])) = 2
   \<and> activations (snd (runs sample_cleo failing_services (sample_app, sample_world)
        [sample_io [''about''], sample_io [''about'']])) = 2
   \<and> \<not> plugins_loaded (fst (runs sample_cleo failing_services (sample_app, sample_world)
        [sample_io [''about''], sample_io [''about'']]))"
  by code_simp

subsection \<open>Where exceptions are caught and where they are not\<close>

























end
